theory Spec2Isabelle
  imports Main "HOL-Library.Word"
begin

section \<open>Return codes and identifiers\<close>

text \<open>
  The functions of \<^verbatim>\<open>librbd/internal.cc\<close> return a C \<^verbatim>\<open>int\<close>: zero or a positive
  value on success, a negated \<^verbatim>\<open>errno\<close> value on failure. The values are those of
  \<^verbatim>\<open><errno.h>\<close> on Linux.
\<close>

abbreviation ENOENT :: int where "ENOENT \<equiv> 2"
abbreviation EIO :: int where "EIO \<equiv> 5"
abbreviation EEXIST :: int where "EEXIST \<equiv> 17"
abbreviation EINVAL :: int where "EINVAL \<equiv> 22"
abbreviation EROFS :: int where "EROFS \<equiv> 30"
abbreviation ENOSYS :: int where "ENOSYS \<equiv> 38"
abbreviation ERESTART :: int where "ERESTART \<equiv> 85"
abbreviation EOPNOTSUPP :: int where "EOPNOTSUPP \<equiv> 95"
abbreviation ETIMEDOUT :: int where "ETIMEDOUT \<equiv> 110"
abbreviation ESTALE :: int where "ESTALE \<equiv> 116"

type_synonym snap_t = "64 word"

text \<open>An \<^verbatim>\<open>int64_t\<close> is a 64-bit word read as signed (\<^const>\<open>sint\<close>) where the code compares it.\<close>

type_synonym int64 = "64 word"

text \<open>
  The generation counters \<^verbatim>\<open>refresh_seq\<close> and \<^verbatim>\<open>last_refresh\<close> are C \<^verbatim>\<open>int\<close>s:
  32-bit words. The code increments the first and compares the two for equality; the
  increment of the largest value wraps to the smallest, as the two's complement
  increment of the compiled code does.
\<close>

type_synonym counter = "32 word"

text \<open>\<^verbatim>\<open>CEPH_NOSNAP\<close> is \<^verbatim>\<open>((__u64)(-2))\<close>: the id of the live (non-snapshot) view.\<close>

definition CEPH_NOSNAP :: snap_t where
  "CEPH_NOSNAP = - 2"

section \<open>The parent predicate\<close>


section \<open>Data model of a device handle\<close>

text \<open>
  Feature bits, flag bits and protection statuses are the constants of
  \<^verbatim>\<open>include/rbd/features.h\<close> and \<^verbatim>\<open>cls/rbd/cls_rbd.h\<close>.
\<close>

abbreviation RBD_FEATURE_LAYERING :: "64 word" where "RBD_FEATURE_LAYERING \<equiv> 1"
abbreviation RBD_FEATURE_FAST_DIFF :: "64 word" where "RBD_FEATURE_FAST_DIFF \<equiv> 16"
abbreviation RBD_FLAG_OBJECT_MAP_INVALID :: "64 word" where "RBD_FLAG_OBJECT_MAP_INVALID \<equiv> 1"
abbreviation RBD_FLAG_FAST_DIFF_INVALID :: "64 word" where "RBD_FLAG_FAST_DIFF_INVALID \<equiv> 2"
abbreviation RBD_PROTECTION_STATUS_UNPROTECTED :: "8 word" where
  "RBD_PROTECTION_STATUS_UNPROTECTED \<equiv> 0"
abbreviation RBD_PROTECTION_STATUS_UNPROTECTING :: "8 word" where
  "RBD_PROTECTION_STATUS_UNPROTECTING \<equiv> 1"
abbreviation RBD_PROTECTION_STATUS_PROTECTED :: "8 word" where
  "RBD_PROTECTION_STATUS_PROTECTED \<equiv> 2"

text \<open>
  \<^verbatim>\<open>parent_spec\<close> and \<^verbatim>\<open>parent_info\<close> (\<^verbatim>\<open>librbd/parent_types.h\<close>): the location of
  the parent snapshot and the number of bytes of the child that still read through to it.
\<close>

record parent_spec =
  pool_id :: int64
  image_id :: string
  ps_snap_id :: snap_t

record parent_info =
  spec :: parent_spec
  overlap :: "64 word"

text \<open>
  Modelled from the spec: the default-constructed \<^verbatim>\<open>parent_spec\<close> and
  \<^verbatim>\<open>parent_info\<close> of \<^verbatim>\<open>librbd/parent_types.h\<close>, which is not part of the
  sources at hand. "A linkage with no store-location identifier means no parent":
  the pool id of an absent parent is \<open>-1\<close>, its snapshot id is the live view and its
  overlap is zero.
\<close>

definition no_parent_spec :: parent_spec where
  "no_parent_spec = \<lparr>pool_id = - 1, image_id = [], ps_snap_id = CEPH_NOSNAP\<rparr>"

definition no_parent_info :: parent_info where
  "no_parent_info = \<lparr>spec = no_parent_spec, overlap = 0\<rparr>"

text \<open>A record of the snapshot table (\<^verbatim>\<open>SnapInfo\<close>).\<close>

record SnapInfo =
  name :: string
  si_size :: "64 word"
  parent_of :: parent_info
  protection_status :: "8 word"
  si_flags :: "64 word"

text \<open>The snapshot context (\<^verbatim>\<open>::SnapContext\<close>): the latest snapshot id and the ids of the
  existing snapshots.\<close>

record SnapContext =
  seq :: snap_t
  sc_snaps :: "snap_t list"

text \<open>
  The fields of \<^verbatim>\<open>ImageCtx\<close> that the functions below read or write. The three
  containers of the snapshot table are \<^verbatim>\<open>std::vector<snap_t> snaps\<close>,
  \<^verbatim>\<open>std::map<snap_t, SnapInfo> snap_info\<close> and
  \<^verbatim>\<open>std::map<std::string, snap_t> snap_ids\<close>; the maps are association lists with
  at most one entry for a key.
\<close>

record image_core =
  read_only :: bool
  old_format :: bool
  id :: string
  md_pool_id :: int64
  snap_id :: snap_t
  snap_name :: string
  snap_exists :: bool
  size :: "64 word"
  order :: "8 word"
  object_prefix :: string
  features :: "64 word"
  flags :: "64 word"
  lockers :: "string list"
  exclusive_locked :: bool
  lock_tag :: string
  snapc :: SnapContext
  snaps :: "snap_t list"
  snap_info :: "(snap_t \<times> SnapInfo) list"
  snap_ids :: "(string \<times> snap_t) list"
  parent_md :: parent_info
  read_flags :: "string list"
  last_refresh :: counter
  refresh_seq :: counter

text \<open>
  The calls that change the shared state (the header record, the object map, the child
  index, the store-level snapshot ids), the steps of a pool scan and the steps of opening
  and closing the handle of the parent, each with the \<^verbatim>\<open>int\<close> it returned. The handle keeps them in the order they were made, so that a
  property can say what was done to the shared state, and in which order.
\<close>

datatype call =
    SetProtectionStatus snap_t "8 word" int
  | PoolGetBaseTier int64 int64 int
  | IoctxCreate2 int64 int
  | GetChildren int64 int
  | OmSnapshotRemove snap_t int
  | RemoveChild parent_spec string int
  | HeaderSnapshotRemove snap_t int
  | SelfmanagedSnapRemove snap_t int
  | PoolReverseLookup int64 int
  | IoctxCreate string int
  | OpenImage string int
  | GetSnapName snap_t int
  | RefreshParent int
  | CloseImage int

text \<open>
  A device handle owns at most one parent handle. The parent handle is an
  \<^verbatim>\<open>ImageCtx\<close> of its own; the model keeps its fields but not the handle of the
  parent's parent, which only the recursive calls on the parent handle touch. The
  \<open>world\<close> is everything outside the handle: the object store, the peers and the
  buffered writes, of which the model knows nothing but what the calls return.
  \<open>watcher_present\<close> says that \<^verbatim>\<open>image_watcher\<close> is not \<^verbatim>\<open>NULL\<close>,
  \<open>completion\<close> is the value a \<^verbatim>\<open>C_SaferCond\<close> of the lock coordinator was
  completed with, \<open>live_parents\<close> counts the parent handles that were
  constructed and not yet closed and deleted, and \<open>calls\<close> is the log of calls.
\<close>

record 'w image_ctx = image_core +
  parent :: "image_core option"
  balance_parent_reads :: bool
  localize_parent_reads :: bool
  watcher_present :: bool
  completion :: "int option"
  live_parents :: int
  calls :: "call list"
  world :: 'w

section \<open>Accessors of the device handle\<close>

text \<open>
  Modelled from the spec: the member functions of \<^verbatim>\<open>ImageCtx\<close>
  (\<^verbatim>\<open>librbd/ImageCtx.cc\<close>, not part of the sources at hand) that the functions of
  \<^verbatim>\<open>internal.cc\<close> call. The spec's data model says: the Snapshot Table maps a
  snapshot id to a record of name, size at creation, parent linkage, protection status
  and flags; lookup is by name or id; removing a record invalidates only that id; the
  Parent Linkage of the live view is the handle's own, that of a snapshot is the one of
  its record. A lookup that finds nothing is \<open>None\<close> here, where the member function
  returns \<open>-ENOENT\<close> and leaves its output untouched.
\<close>

definition get_snap_id :: "'a image_core_scheme \<Rightarrow> string \<Rightarrow> snap_t" where
  "get_snap_id ictx in_snap_name =
     (case map_of (snap_ids ictx) in_snap_name of None \<Rightarrow> CEPH_NOSNAP | Some i \<Rightarrow> i)"

definition get_snap_info :: "'a image_core_scheme \<Rightarrow> snap_t \<Rightarrow> SnapInfo option" where
  "get_snap_info ictx in_snap_id = map_of (snap_info ictx) in_snap_id"

definition get_snap_name :: "'a image_core_scheme \<Rightarrow> snap_t \<Rightarrow> string option" where
  "get_snap_name ictx in_snap_id = map_option name (get_snap_info ictx in_snap_id)"

definition is_snap_protected :: "'a image_core_scheme \<Rightarrow> snap_t \<Rightarrow> bool option" where
  "is_snap_protected ictx in_snap_id =
     map_option (\<lambda>info. protection_status info = RBD_PROTECTION_STATUS_PROTECTED)
       (get_snap_info ictx in_snap_id)"

definition is_snap_unprotected :: "'a image_core_scheme \<Rightarrow> snap_t \<Rightarrow> bool option" where
  "is_snap_unprotected ictx in_snap_id =
     map_option (\<lambda>info. protection_status info = RBD_PROTECTION_STATUS_UNPROTECTED)
       (get_snap_info ictx in_snap_id)"

definition get_image_size :: "'a image_core_scheme \<Rightarrow> snap_t \<Rightarrow> 64 word" where
  "get_image_size ictx in_snap_id =
     (if in_snap_id = CEPH_NOSNAP then size ictx
      else case get_snap_info ictx in_snap_id of None \<Rightarrow> 0 | Some info \<Rightarrow> si_size info)"

definition get_parent_info :: "'a image_core_scheme \<Rightarrow> snap_t \<Rightarrow> parent_info option" where
  "get_parent_info ictx in_snap_id =
     (if in_snap_id = CEPH_NOSNAP then Some (parent_md ictx)
      else map_option parent_of (get_snap_info ictx in_snap_id))"

definition get_parent_pool_id :: "'a image_core_scheme \<Rightarrow> snap_t \<Rightarrow> int64" where
  "get_parent_pool_id ictx in_snap_id =
     (case get_parent_info ictx in_snap_id of None \<Rightarrow> - 1 | Some info \<Rightarrow> pool_id (spec info))"

definition get_parent_image_id :: "'a image_core_scheme \<Rightarrow> snap_t \<Rightarrow> string" where
  "get_parent_image_id ictx in_snap_id =
     (case get_parent_info ictx in_snap_id of None \<Rightarrow> [] | Some info \<Rightarrow> image_id (spec info))"

definition get_parent_snap_id :: "'a image_core_scheme \<Rightarrow> snap_t \<Rightarrow> snap_t" where
  "get_parent_snap_id ictx in_snap_id =
     (case get_parent_info ictx in_snap_id of
        None \<Rightarrow> CEPH_NOSNAP | Some info \<Rightarrow> ps_snap_id (spec info))"

definition get_parent_overlap :: "'a image_core_scheme \<Rightarrow> snap_t \<Rightarrow> 64 word option" where
  "get_parent_overlap ictx in_snap_id = map_option overlap (get_parent_info ictx in_snap_id)"

definition get_parent_spec :: "'a image_core_scheme \<Rightarrow> snap_t \<Rightarrow> parent_spec option" where
  "get_parent_spec ictx in_snap_id = map_option spec (get_parent_info ictx in_snap_id)"

text \<open>\<^verbatim>\<open>std::map::insert\<close> keeps the entry of a key that is already present.\<close>

definition map_insert :: "'k \<Rightarrow> 'v \<Rightarrow> ('k \<times> 'v) list \<Rightarrow> ('k \<times> 'v) list" where
  "map_insert k v m = (if k \<in> fst ` set m then m else m @ [(k, v)])"

definition map_erase :: "'k \<Rightarrow> ('k \<times> 'v) list \<Rightarrow> ('k \<times> 'v) list" where
  "map_erase k m = filter (\<lambda>e. fst e \<noteq> k) m"

definition ictx_add_snap ::
  "string \<Rightarrow> snap_t \<Rightarrow> 64 word \<Rightarrow> parent_info \<Rightarrow> 8 word \<Rightarrow> 64 word \<Rightarrow>
   'a image_core_scheme \<Rightarrow> 'a image_core_scheme" where
  "ictx_add_snap in_snap_name i in_size par prot fl ictx =
     ictx\<lparr>snaps := snaps ictx @ [i],
          snap_info := map_insert i
            \<lparr>name = in_snap_name, si_size = in_size, parent_of = par,
             protection_status = prot, si_flags = fl\<rparr> (snap_info ictx),
          snap_ids := map_insert in_snap_name i (snap_ids ictx)\<rparr>"

definition ictx_rm_snap :: "string \<Rightarrow> snap_t \<Rightarrow> 'a image_core_scheme \<Rightarrow> 'a image_core_scheme" where
  "ictx_rm_snap in_snap_name i ictx =
     ictx\<lparr>snaps := removeAll i (snaps ictx),
          snap_info := map_erase i (snap_info ictx),
          snap_ids := map_erase in_snap_name (snap_ids ictx)\<rparr>"

text \<open>Selecting a snapshot as the active view, and selecting the live view.\<close>

definition ictx_snap_set :: "string \<Rightarrow> 'a image_core_scheme \<Rightarrow> int \<times> 'a image_core_scheme" where
  "ictx_snap_set in_snap_name ictx =
     (let in_snap_id = get_snap_id ictx in_snap_name in
      if in_snap_id \<noteq> CEPH_NOSNAP
      then (0, ictx\<lparr>snap_id := in_snap_id, snap_name := in_snap_name, snap_exists := True\<rparr>)
      else (- ENOENT, ictx))"

definition ictx_snap_unset :: "'a image_core_scheme \<Rightarrow> 'a image_core_scheme" where
  "ictx_snap_unset ictx = ictx\<lparr>snap_id := CEPH_NOSNAP, snap_name := [], snap_exists := True\<rparr>"

section \<open>External collaborators\<close>

text \<open>
  What the header codec hands back. \<^verbatim>\<open>read_header\<close> fills the legacy on-disk header,
  \<^verbatim>\<open>cls_client::get_mutable_metadata\<close> the fields of a current-format device, and
  \<^verbatim>\<open>cls_client::snapshot_list\<close> one entry per snapshot id it was asked about.
\<close>

record old_header =
  image_size :: "64 word"
  options_order :: "8 word"
  block_name :: string

record old_listing =
  ol_names :: "string list"
  ol_sizes :: "64 word list"
  ol_snapc :: SnapContext

record lock_info =
  li_lockers :: "string list"
  li_exclusive :: bool
  li_tag :: string

record mutable_metadata =
  mm_size :: "64 word"
  mm_features :: "64 word"
  mm_incompatible_features :: "64 word"
  mm_lockers :: "string list"
  mm_exclusive_locked :: bool
  mm_lock_tag :: string
  mm_snapc :: SnapContext
  mm_parent_md :: parent_info

record snap_listing =
  sl_names :: "string list"
  sl_sizes :: "64 word list"
  sl_parents :: "parent_info list"
  sl_protection :: "8 word list"

text \<open>
  The calls that leave \<^verbatim>\<open>internal.cc\<close>: the header codec (\<^verbatim>\<open>cls_client\<close>), the
  object store (\<^verbatim>\<open>librados\<close>), the peer notification channel (\<^verbatim>\<open>ImageWatcher\<close>), the
  object map, the cache, and the open pipeline run on the handle of the parent. Each call
  reads the world and returns its \<^verbatim>\<open>int\<close> result, its outputs and the world after the
  call. Nothing is assumed of them: a theorem about a function below holds for every
  behaviour of the collaborators, failures included. \<open>RBD_FEATURES_ALL\<close> and
  \<^verbatim>\<open>SnapContext::is_valid\<close> are a constant and a predicate declared outside the
  sources at hand. \<open>interference\<close> is what the other threads of the process and the
  peers do to the world while this thread does not hold the owner lock, and
  \<open>wait_completion\<close> is the outcome that a handler which did not complete its
  context at once delivers later.
\<close>

record 'w env =
  RBD_FEATURES_ALL :: "64 word"
  is_valid :: "SnapContext \<Rightarrow> bool"
  \<comment> \<open>peer notification channel\<close>
  is_lock_supported :: "'w image_ctx \<Rightarrow> bool"
  is_lock_owner :: "'w \<Rightarrow> bool"
  try_lock :: "'w \<Rightarrow> int \<times> 'w"
  notify_snap_create :: "string \<Rightarrow> 'w \<Rightarrow> int \<times> 'w"
  notify_snap_remove :: "string \<Rightarrow> 'w \<Rightarrow> int \<times> 'w"
  notify_resize :: "64 word \<Rightarrow> 'w \<Rightarrow> int \<times> 'w"
  notify_header_update :: "'w \<Rightarrow> 'w"
  wait_completion :: "'w \<Rightarrow> int \<times> 'w"
  interference :: "'w \<Rightarrow> 'w"
  \<comment> \<open>header codec\<close>
  read_header :: "'w \<Rightarrow> int \<times> old_header \<times> 'w"
  old_snapshot_list :: "'w \<Rightarrow> int \<times> old_listing \<times> 'w"
  get_lock_info :: "'w \<Rightarrow> int \<times> lock_info \<times> 'w"
  get_mutable_metadata :: "bool \<Rightarrow> 'w \<Rightarrow> int \<times> mutable_metadata \<times> 'w"
  get_flags :: "snap_t list \<Rightarrow> 'w \<Rightarrow> int \<times> (64 word \<times> 64 word list) \<times> 'w"
  snapshot_list :: "snap_t list \<Rightarrow> 'w \<Rightarrow> int \<times> snap_listing \<times> 'w"
  set_protection_status :: "snap_t \<Rightarrow> 8 word \<Rightarrow> 'w \<Rightarrow> int \<times> 'w"
  old_snapshot_add :: "snap_t \<Rightarrow> string \<Rightarrow> 'w \<Rightarrow> int \<times> 'w"
  snapshot_add :: "bool \<Rightarrow> snap_t \<Rightarrow> string \<Rightarrow> 'w \<Rightarrow> int \<times> 'w"
  old_snapshot_remove :: "string \<Rightarrow> 'w \<Rightarrow> int \<times> 'w"
  snapshot_remove :: "snap_t \<Rightarrow> 'w \<Rightarrow> int \<times> 'w"
  \<comment> \<open>child index\<close>
  remove_child :: "parent_spec \<Rightarrow> string \<Rightarrow> 'w \<Rightarrow> int \<times> 'w"
  get_children :: "int64 \<Rightarrow> parent_spec \<Rightarrow> 'w \<Rightarrow> int \<times> string list \<times> 'w"
  \<comment> \<open>object store\<close>
  selfmanaged_snap_create :: "'w \<Rightarrow> int \<times> snap_t \<times> 'w"
  selfmanaged_snap_remove :: "snap_t \<Rightarrow> 'w \<Rightarrow> int \<times> 'w"
  selfmanaged_snap_set_write_ctx :: "snap_t \<Rightarrow> snap_t list \<Rightarrow> 'w \<Rightarrow> 'w"
  wait_for_latest_osdmap :: "'w \<Rightarrow> 'w"
  pool_list2 :: "'w \<Rightarrow> (int64 \<times> string) list \<times> 'w"
  pool_get_base_tier :: "int64 \<Rightarrow> 'w \<Rightarrow> int \<times> int64 \<times> 'w"
  ioctx_create2 :: "int64 \<Rightarrow> 'w \<Rightarrow> int \<times> 'w"
  pool_reverse_lookup :: "int64 \<Rightarrow> 'w \<Rightarrow> int \<times> string \<times> 'w"
  ioctx_create :: "string \<Rightarrow> 'w \<Rightarrow> int \<times> int64 \<times> 'w"
  rollback_objects :: "snap_t \<Rightarrow> 'w \<Rightarrow> int \<times> 'w"
  \<comment> \<open>object map\<close>
  om_snapshot_add :: "snap_t \<Rightarrow> 'w \<Rightarrow> 'w"
  om_snapshot_remove :: "snap_t \<Rightarrow> 'w \<Rightarrow> int \<times> 'w"
  om_refresh :: "snap_t \<Rightarrow> 'w \<Rightarrow> 'w"
  om_rollback :: "snap_t \<Rightarrow> 'w \<Rightarrow> 'w"
  \<comment> \<open>cache and in-flight operations\<close>
  object_cacher :: bool
  flush_cache :: "'w \<Rightarrow> int \<times> 'w"
  aio_flush :: "'w \<Rightarrow> int \<times> 'w"
  flush_async_operations :: "'w \<Rightarrow> 'w"
  invalidate_cache :: "'w \<Rightarrow> int \<times> 'w"
  clear_nonexistence_cache :: "'w \<Rightarrow> 'w"
  send_resize_request :: "64 word \<Rightarrow> 'w \<Rightarrow> 'w"
  \<comment> \<open>the open pipeline on the handle of the parent\<close>
  parent_open_image :: "image_core \<Rightarrow> 'w \<Rightarrow> int \<times> image_core \<times> 'w"
  parent_refresh_parent :: "image_core \<Rightarrow> 'w \<Rightarrow> int \<times> image_core \<times> 'w"
  parent_close_image :: "image_core \<Rightarrow> 'w \<Rightarrow> int \<times> 'w"

section \<open>Parent resolver\<close>

text \<open>
  A function below returns \<open>Some (r, ictx')\<close> when the C function returns \<open>r\<close> and
  leaves the handle as \<open>ictx'\<close>, and \<open>None\<close> when it does not return: an
  \<^verbatim>\<open>assert\<close> on the data aborts the process, or a retry loop never ends. The model is
  sequential, so the assertions on the reader/writer locks are not part of it.
\<close>

text \<open>
  Modelled from the spec: the constructor call
  \<^verbatim>\<open>new ImageCtx("", parent_image_id, NULL, p_ioctx, true)\<close>. The spec's Parent
  Resolver "constructs a new child Device Handle bound to the parent's image id"; the
  handle is read-only, on the live view, with an empty snapshot table and no parent
  linkage until it is opened.
\<close>

definition new_ImageCtx :: "string \<Rightarrow> int64 \<Rightarrow> image_core" where
  "new_ImageCtx image_id' p_ioctx =
     \<lparr>read_only = True, old_format = False, id = image_id', md_pool_id = p_ioctx,
      snap_id = CEPH_NOSNAP, snap_name = [], snap_exists = True, size = 0, order = 0,
      object_prefix = [], features = 0, flags = 0, lockers = [], exclusive_locked = False,
      lock_tag = [], snapc = \<lparr>seq = 0, sc_snaps = []\<rparr>, snaps = [], snap_info = [],
      snap_ids = [], parent_md = no_parent_info, read_flags = [], last_refresh = 0,
      refresh_seq = 0\<rparr>"

definition set_read_flag :: "string \<Rightarrow> image_core \<Rightarrow> image_core" where
  "set_read_flag flag p = p\<lparr>read_flags := read_flags p @ [flag]\<rparr>"

text \<open>
  \<^verbatim>\<open>close_image(ictx->parent); ictx->parent = NULL;\<close> as it appears on the failure
  paths of \<^verbatim>\<open>open_parent\<close> and in \<^verbatim>\<open>refresh_parent\<close>.
\<close>

definition close_parent :: "'w env \<Rightarrow> image_core \<Rightarrow> 'w image_ctx \<Rightarrow> 'w image_ctx" where
  "close_parent env p ictx =
     (case parent_close_image env p (world ictx) of
        (close_r, w) \<Rightarrow>
          ictx\<lparr>parent := None, live_parents := live_parents ictx - 1,
               calls := calls ictx @ [CloseImage close_r], world := w\<rparr>)"

definition open_parent :: "'w env \<Rightarrow> 'w image_ctx \<Rightarrow> (int \<times> 'w image_ctx) option" where
  "open_parent env ictx =
     (let pool_id' = get_parent_pool_id ictx (snap_id ictx);
          parent_image_id = get_parent_image_id ictx (snap_id ictx);
          parent_snap_id = get_parent_snap_id ictx (snap_id ictx)
      in
      if parent_snap_id = CEPH_NOSNAP then None
      else if sint pool_id' < 0 then Some (- ENOENT, ictx)
      else
        case pool_reverse_lookup env pool_id' (world ictx) of
          (r, pool_name, w1) \<Rightarrow>
        let ictx0 = ictx\<lparr>calls := calls ictx @ [PoolReverseLookup pool_id' r], world := w1\<rparr> in
        if r < 0 then Some (r, ictx0)
        else
        case ioctx_create env pool_name w1 of
          (r, p_ioctx, w2) \<Rightarrow>
        let ictx0' = ictx0\<lparr>calls := calls ictx0 @ [IoctxCreate pool_name r], world := w2\<rparr> in
        if r < 0 then Some (r, ictx0')
        else
        let p0 = new_ImageCtx parent_image_id p_ioctx;
            p1 = (if balance_parent_reads ictx then set_read_flag ''BALANCE_READS'' p0
                  else if localize_parent_reads ictx then set_read_flag ''LOCALIZE_READS'' p0
                  else p0);
            ictx1 = ictx0'\<lparr>parent := Some p1, live_parents := live_parents ictx0' + 1\<rparr>
        in
        case parent_open_image env p1 w2 of
          (r, p2, w3) \<Rightarrow>
        let ictx1' = ictx1\<lparr>calls := calls ictx1 @ [OpenImage parent_image_id r], world := w3\<rparr> in
        if r < 0
        then Some (r, ictx1'\<lparr>parent := None, live_parents := live_parents ictx1' - 1\<rparr>)
        else
        let ictx2 = ictx1'\<lparr>parent := Some p2\<rparr> in
        case get_snap_name p2 parent_snap_id of
          None \<Rightarrow>
            Some (- ENOENT,
                  close_parent env p2
                    (ictx2\<lparr>calls := calls ictx2 @ [GetSnapName parent_snap_id (- ENOENT)]\<rparr>))
        | Some parent_snap_name \<Rightarrow>
        let p3 = snd (ictx_snap_set parent_snap_name (p2\<lparr>snap_name := parent_snap_name\<rparr>)) in
        case parent_refresh_parent env p3 w3 of
          (r, p4, w4) \<Rightarrow>
        let ictx3 = ictx2\<lparr>parent := Some p4,
                          calls := calls ictx2 @ [GetSnapName parent_snap_id 0, RefreshParent r],
                          world := w4\<rparr>
        in
        if r < 0 then Some (r, close_parent env p4 ictx3)
        else Some (0, ictx3))"

definition refresh_parent :: "'w env \<Rightarrow> 'w image_ctx \<Rightarrow> (int \<times> 'w image_ctx) option" where
  "refresh_parent env ictx =
     (let closed =
        (case parent ictx of
           None \<Rightarrow> Inr ictx
         | Some p \<Rightarrow>
             let ov = get_parent_overlap ictx (snap_id ictx);
                 r = (case ov of None \<Rightarrow> - ENOENT | Some _ \<Rightarrow> 0)
             in
             if r < 0 \<and> r \<noteq> - ENOENT then Inl r
             else if r = - ENOENT \<or> ov = Some 0 \<or>
                     md_pool_id p \<noteq> get_parent_pool_id ictx (snap_id ictx) \<or>
                     id p \<noteq> get_parent_image_id ictx (snap_id ictx) \<or>
                     snap_id p \<noteq> get_parent_snap_id ictx (snap_id ictx)
             then Inr (close_parent env p
                         (ictx\<lparr>world := clear_nonexistence_cache env (world ictx)\<rparr>))
             else Inr ictx)
      in
      case closed of
        Inl r \<Rightarrow> Some (r, ictx)
      | Inr ictx1 \<Rightarrow>
          if - 1 < sint (get_parent_pool_id ictx1 (snap_id ictx1)) \<and> parent ictx1 = None
          then (case open_parent env ictx1 of
                  None \<Rightarrow> None
                | Some (r, ictx2) \<Rightarrow> if r < 0 then Some (r, ictx2) else Some (0, ictx2))
          else Some (0, ictx1))"

section \<open>Metadata refresh engine\<close>

unbundle bit_operations_syntax

text \<open>\<^verbatim>\<open>_flush\<close>: flush the buffered writes, through the cache when there is one.\<close>

definition flush' :: "'w env \<Rightarrow> 'w image_ctx \<Rightarrow> int \<times> 'w image_ctx" where
  "flush' env ictx =
     (if object_cacher env
      then (case flush_cache env (world ictx) of (r, w) \<Rightarrow> (r, ictx\<lparr>world := w\<rparr>))
      else (case aio_flush env (world ictx) of
              (r, w) \<Rightarrow> (r, ictx\<lparr>world := flush_async_operations env w\<rparr>)))"

text \<open>The vectors local to \<^verbatim>\<open>ictx_refresh\<close>.\<close>

record refresh_locals =
  new_snapc :: SnapContext
  snap_names :: "string list"
  snap_sizes :: "64 word list"
  snap_parents :: "parent_info list"
  snap_protection :: "8 word list"
  snap_flags :: "64 word list"

definition no_locals :: refresh_locals where
  "no_locals = \<lparr>new_snapc = \<lparr>seq = 0, sc_snaps = []\<rparr>, snap_names = [], snap_sizes = [],
     snap_parents = [], snap_protection = [], snap_flags = []\<rparr>"

text \<open>
  The reading part of \<^verbatim>\<open>ictx_refresh\<close> returns \<open>(returned, r, locals, ictx)\<close>:
  \<open>returned\<close> says that a \<^verbatim>\<open>return r\<close> statement was reached, otherwise control
  goes on with \<open>r\<close> in hand. The codec writes its outputs when it succeeds.
\<close>

definition read_old_format ::
  "'w env \<Rightarrow> refresh_locals \<Rightarrow> 'w image_ctx \<Rightarrow> bool \<times> int \<times> refresh_locals \<times> 'w image_ctx" where
  "read_old_format env l ictx =
     (case read_header env (world ictx) of
        (r, header, w1) \<Rightarrow>
      if r < 0 then (True, r, l, ictx\<lparr>world := w1\<rparr>)
      else
      case old_snapshot_list env w1 of
        (r, ol, w2) \<Rightarrow>
      if r < 0 then (True, r, l, ictx\<lparr>world := w2\<rparr>)
      else
      let l1 = l\<lparr>snap_names := ol_names ol, snap_sizes := ol_sizes ol, new_snapc := ol_snapc ol\<rparr>
      in
      case get_lock_info env w2 of
        (r, li, w3) \<Rightarrow>
      if r < 0 \<and> r \<noteq> - EOPNOTSUPP \<and> r \<noteq> - EIO then (True, r, l1, ictx\<lparr>world := w3\<rparr>)
      else
      let ictx1 = (if r < 0 then ictx\<lparr>exclusive_locked := False\<rparr>
                   else ictx\<lparr>lockers := li_lockers li, exclusive_locked := li_exclusive li,
                             lock_tag := li_tag li\<rparr>)
      in (False, r, l1,
          ictx1\<lparr>order := options_order header, size := image_size header,
                object_prefix := block_name header, world := w3\<rparr>))"

definition read_new_format_once ::
  "'w env \<Rightarrow> refresh_locals \<Rightarrow> 'w image_ctx \<Rightarrow> bool \<times> int \<times> refresh_locals \<times> 'w image_ctx" where
  "read_new_format_once env l ictx =
     (let read_only' = (read_only ictx \<or> snap_id ictx \<noteq> CEPH_NOSNAP) in
      case get_mutable_metadata env read_only' (world ictx) of
        (r, mm, w1) \<Rightarrow>
      if r < 0 then (True, r, l, ictx\<lparr>world := w1\<rparr>)
      else
      let ictx1 = ictx\<lparr>size := mm_size mm, features := mm_features mm,
                       lockers := mm_lockers mm, exclusive_locked := mm_exclusive_locked mm,
                       lock_tag := mm_lock_tag mm, parent_md := mm_parent_md mm, world := w1\<rparr>;
          l1 = l\<lparr>new_snapc := mm_snapc mm\<rparr>;
          unsupported = mm_incompatible_features mm AND NOT (RBD_FEATURES_ALL env)
      in
      if unsupported \<noteq> 0 then (True, - ENOSYS, l1, ictx1)
      else
      case get_flags env (sc_snaps (new_snapc l1)) w1 of
        (r, (fl, sfl), w2) \<Rightarrow>
      case (if r = - EOPNOTSUPP \<or> r = - EIO
            then (let fl' = (if features ictx1 AND RBD_FEATURE_FAST_DIFF \<noteq> 0
                             then RBD_FLAG_OBJECT_MAP_INVALID OR RBD_FLAG_FAST_DIFF_INVALID
                             else RBD_FLAG_OBJECT_MAP_INVALID)
                  in Inr (fl', replicate (length (sc_snaps (new_snapc l1))) fl'))
            else if r = - ENOENT then Inl False
            else if r < 0 then Inl True
            else Inr (fl, sfl)) of
        Inl returned \<Rightarrow> (returned, r, l1, ictx1\<lparr>world := w2\<rparr>)
      | Inr (fl', sfl') \<Rightarrow>
      let ictx2 = ictx1\<lparr>flags := fl', world := w2\<rparr>;
          l2 = l1\<lparr>snap_flags := sfl'\<rparr>
      in
      case snapshot_list env (sc_snaps (new_snapc l2)) w2 of
        (r, sl, w3) \<Rightarrow>
      let l3 = l2\<lparr>snap_names := sl_names sl, snap_sizes := sl_sizes sl,
                   snap_parents := sl_parents sl, snap_protection := sl_protection sl\<rparr>
      in
      if r < 0 \<and> r \<noteq> - ENOENT then (True, r, l3, ictx2\<lparr>world := w3\<rparr>)
      else (False, r, l3, ictx2\<lparr>world := w3\<rparr>))"

text \<open>\<^verbatim>\<open>do { ... } while (r == -ENOENT);\<close>\<close>

partial_function (option) read_new_format ::
  "'w env \<Rightarrow> refresh_locals \<Rightarrow> 'w image_ctx \<Rightarrow>
   (bool \<times> int \<times> refresh_locals \<times> 'w image_ctx) option" where
  "read_new_format env l ictx =
     (case read_new_format_once env l ictx of
        (returned, r, l', ictx') \<Rightarrow>
          if returned then Some (True, r, l', ictx')
          else if r = - ENOENT then read_new_format env l' ictx'
          else Some (False, r, l', ictx'))"

text \<open>
  The second loop of \<^verbatim>\<open>ictx_refresh\<close>: one \<^verbatim>\<open>ictx->add_snap\<close> for every id of the
  new snapshot context, in order. A legacy device has no per-snapshot flags, protection
  status or parent.
\<close>

definition add_snaps :: "bool \<Rightarrow> refresh_locals \<Rightarrow> 'a image_core_scheme \<Rightarrow> 'a image_core_scheme" where
  "add_snaps old l ictx =
     fold (\<lambda>i. ictx_add_snap (snap_names l ! i) (sc_snaps (new_snapc l) ! i) (snap_sizes l ! i)
                  (if old then no_parent_info else snap_parents l ! i)
                  (if old then RBD_PROTECTION_STATUS_UNPROTECTED else snap_protection l ! i)
                  (if old then 0 else snap_flags l ! i))
       [0 ..< length (sc_snaps (new_snapc l))] ictx"

text \<open>
  The vectors are indexed by the positions of the new snapshot context. The codec
  returns one entry for each id; a shorter vector would be read out of range, which the
  model counts as not returning.
\<close>

definition vectors_cover :: "bool \<Rightarrow> refresh_locals \<Rightarrow> bool" where
  "vectors_cover old l \<longleftrightarrow>
     (let n = length (sc_snaps (new_snapc l)) in
      n \<le> length (snap_names l) \<and> n \<le> length (snap_sizes l) \<and>
      (old \<or> (n \<le> length (snap_parents l) \<and> n \<le> length (snap_protection l) \<and>
              n \<le> length (snap_flags l))))"

definition refresh_finish ::
  "'w env \<Rightarrow> counter \<Rightarrow> refresh_locals \<Rightarrow> 'w image_ctx \<Rightarrow> (int \<times> 'w image_ctx) option" where
  "refresh_finish env refresh_seq' l ictx =
     (if \<not> vectors_cover (old_format ictx) l then None
      else
      let new_snap = (\<exists>i \<in> set (sc_snaps (new_snapc l)). i \<notin> set (snaps ictx));
          ictx1 = add_snaps (old_format ictx) l (ictx\<lparr>snaps := [], snap_info := [], snap_ids := []\<rparr>)
      in
      case refresh_parent env ictx1 of
        None \<Rightarrow> None
      | Some (r, ictx2) \<Rightarrow>
      if r < 0 then Some (r, ictx2)
      else if \<not> is_valid env (new_snapc l) then Some (- EIO, ictx2)
      else
      let ictx3 = ictx2\<lparr>snapc := new_snapc l\<rparr>;
          ictx4 = (if snap_id ictx3 \<noteq> CEPH_NOSNAP \<and>
                      get_snap_id ictx3 (snap_name ictx3) \<noteq> snap_id ictx3
                   then ictx3\<lparr>snap_exists := False\<rparr> else ictx3);
          ictx5 = ictx4\<lparr>world := selfmanaged_snap_set_write_ctx env (seq (snapc ictx4)) (snaps ictx4)
                                    (om_refresh env (snap_id ictx4) (world ictx4))\<rparr>;
          ictx6 = (if new_snap then snd (flush' env ictx5) else ictx5)
      in Some (0, ictx6\<lparr>last_refresh := refresh_seq'\<rparr>))"

definition ictx_refresh :: "'w env \<Rightarrow> 'w image_ctx \<Rightarrow> (int \<times> 'w image_ctx) option" where
  "ictx_refresh env ictx =
     (let refresh_seq' = refresh_seq ictx;
          ictx0 = ictx\<lparr>lockers := []\<rparr>
      in
      case (if old_format ictx0 then Some (read_old_format env no_locals ictx0)
            else read_new_format env no_locals ictx0) of
        None \<Rightarrow> None
      | Some (returned, r, l, ictx1) \<Rightarrow>
          if returned then Some (r, ictx1)
          else refresh_finish env refresh_seq' l ictx1)"

text \<open>
  \<^verbatim>\<open>ictx_check\<close> is the gate in front of every operation: it refreshes only when the
  observed generation \<^verbatim>\<open>last_refresh\<close> differs from the target \<^verbatim>\<open>refresh_seq\<close>. The
  flag \<open>owner_locked\<close> only says whether the caller already holds the owner lock.
\<close>

definition ictx_check :: "'w env \<Rightarrow> bool \<Rightarrow> 'w image_ctx \<Rightarrow> (int \<times> 'w image_ctx) option" where
  "ictx_check env owner_locked ictx =
     (let needs_refresh = (last_refresh ictx \<noteq> refresh_seq ictx) in
      if needs_refresh
      then (case (if owner_locked then ictx_refresh env ictx else ictx_refresh env ictx) of
              None \<Rightarrow> None
            | Some (r, ictx') \<Rightarrow> if r < 0 then Some (r, ictx') else Some (0, ictx'))
      else Some (0, ictx))"

section \<open>Exclusive lock coordinator\<close>

text \<open>
  What the coordinator does with the owner lock and with its collaborators, in the order
  it does it: taking and releasing \<^verbatim>\<open>owner_lock\<close> in read or write mode, the answers
  of \<^verbatim>\<open>is_lock_supported()\<close> and \<^verbatim>\<open>is_lock_owner()\<close>, the result of
  \<^verbatim>\<open>try_lock()\<close>, of the remote forward, of the dispatch of the local handler and of
  waiting for the handler's outcome.
\<close>

datatype event =
    OwnerRLock | OwnerRUnlock | OwnerWLock | OwnerWUnlock
  | Supported bool
  | ObservedOwner bool
  | TryLock int
  | Forwarded int
  | Dispatched int
  | Awaited int

definition prepare_image_update ::
  "'w env \<Rightarrow> 'w image_ctx \<Rightarrow> event list \<Rightarrow> int \<times> 'w image_ctx \<times> event list" where
  "prepare_image_update env ictx t =
     (if \<not> watcher_present ictx then (- EROFS, ictx, t)
      else if \<not> is_lock_supported env ictx then (0, ictx, t @ [Supported False])
      else if is_lock_owner env (world ictx) then (0, ictx, t @ [Supported True, ObservedOwner True])
      else
        let t1 = t @ [Supported True, ObservedOwner False, OwnerRUnlock];
            w1 = interference env (world ictx);
            t2 = t1 @ [OwnerWLock]
        in
        case (if \<not> is_lock_owner env w1
              then (case try_lock env w1 of
                      (r, w2) \<Rightarrow>
                        (r, is_lock_owner env w2, w2,
                         t2 @ [ObservedOwner False, TryLock r, ObservedOwner (is_lock_owner env w2)]))
              else (0, False, w1, t2 @ [ObservedOwner True])) of
          (r, acquired_lock, w3, t3) \<Rightarrow>
            let w4 = interference env w3;
                w5 = (if acquired_lock then flush_async_operations env w4 else w4)
            in (r, ictx\<lparr>world := w5\<rparr>, t3 @ [OwnerWUnlock, OwnerRLock]))"

text \<open>
  The loop \<^verbatim>\<open>while (ictx->image_watcher->is_lock_supported()) { ... }\<close> of
  \<^verbatim>\<open>invoke_async_request\<close>. It ends with \<open>Some r\<close> when the function returns
  \<open>r\<close> from inside the loop, and with \<open>None\<close> when control reaches the dispatch of
  the local handler.
\<close>

partial_function (option) request_lock ::
  "'w env \<Rightarrow> ('w \<Rightarrow> int \<times> 'w) \<Rightarrow> 'w image_ctx \<Rightarrow> event list \<Rightarrow>
   (int option \<times> 'w image_ctx \<times> event list) option" where
  "request_lock env remote_request ictx t =
     (if is_lock_supported env ictx
      then (case prepare_image_update env ictx (t @ [Supported True]) of
              (r, ictx1, t1) \<Rightarrow>
                if r < 0 then Some (Some (- EROFS), ictx1, t1)
                else if is_lock_owner env (world ictx1)
                then Some (None, ictx1, t1 @ [ObservedOwner True])
                else (case remote_request (world ictx1) of
                        (r, w) \<Rightarrow>
                          if r \<noteq> - ETIMEDOUT \<and> r \<noteq> - ERESTART
                          then Some (Some r, ictx1\<lparr>world := w\<rparr>,
                                     t1 @ [ObservedOwner False, Forwarded r])
                          else request_lock env remote_request (ictx1\<lparr>world := w\<rparr>)
                                 (t1 @ [ObservedOwner False, Forwarded r])))
      else Some (None, ictx, t @ [Supported False]))"

text \<open>\<^verbatim>\<open>ctx.wait()\<close>: the value the handler completed the context with, at once or later.\<close>

definition ctx_wait :: "'w env \<Rightarrow> 'w image_ctx \<Rightarrow> int \<times> 'w image_ctx" where
  "ctx_wait env ictx =
     (case completion ictx of
        Some r \<Rightarrow> (r, ictx)
      | None \<Rightarrow> (case wait_completion env (world ictx) of (r, w) \<Rightarrow> (r, ictx\<lparr>world := w\<rparr>)))"

partial_function (option) invoke_async_request ::
  "'w env \<Rightarrow> bool \<Rightarrow> ('w image_ctx \<Rightarrow> (int \<times> 'w image_ctx) option) \<Rightarrow> ('w \<Rightarrow> int \<times> 'w) \<Rightarrow>
   'w image_ctx \<Rightarrow> event list \<Rightarrow> (int \<times> 'w image_ctx \<times> event list) option" where
  "invoke_async_request env permit_snapshot local_request remote_request ictx t =
     (let ictx0 = ictx\<lparr>completion := None\<rparr>;
          t0 = t @ [OwnerRLock]
      in
      if read_only ictx0 \<or> (\<not> permit_snapshot \<and> snap_id ictx0 \<noteq> CEPH_NOSNAP)
      then Some (- EROFS, ictx0, t0 @ [OwnerRUnlock])
      else
        case request_lock env remote_request ictx0 t0 of
          None \<Rightarrow> None
        | Some (Some r, ictx1, t1) \<Rightarrow> Some (r, ictx1, t1 @ [OwnerRUnlock])
        | Some (None, ictx1, t1) \<Rightarrow>
            (case local_request ictx1 of
               None \<Rightarrow> None
             | Some (r, ictx2) \<Rightarrow>
                 if r < 0 then Some (r, ictx2, t1 @ [Dispatched r, OwnerRUnlock])
                 else
                   (case ctx_wait env ictx2 of
                      (r', ictx3) \<Rightarrow>
                        if r' = - ERESTART
                        then invoke_async_request env permit_snapshot local_request remote_request
                               ictx3 (t1 @ [Dispatched r, OwnerRUnlock, Awaited r'])
                        else Some (r', ictx3, t1 @ [Dispatched r, OwnerRUnlock, Awaited r']))))"

section \<open>Snapshot lifecycle manager\<close>

text \<open>
  \<^verbatim>\<open>notify_change\<close> bumps the target generation (\<^verbatim>\<open>++ictx->refresh_seq\<close> on a C
  \<^verbatim>\<open>int\<close>, so the addition is the one of 32-bit words) and tells the peers.
\<close>

definition notify_change :: "'w env \<Rightarrow> 'w image_ctx \<Rightarrow> 'w image_ctx" where
  "notify_change env ictx =
     ictx\<lparr>refresh_seq := refresh_seq ictx + 1, world := notify_header_update env (world ictx)\<rparr>"

text \<open>The assertion \<^verbatim>\<open>assert(!is_lock_supported() || is_lock_owner())\<close> of the handlers.\<close>

definition owner_or_unsupported :: "'w env \<Rightarrow> 'w image_ctx \<Rightarrow> bool" where
  "owner_or_unsupported env ictx \<longleftrightarrow> \<not> is_lock_supported env ictx \<or> is_lock_owner env (world ictx)"

subsection \<open>Create\<close>

definition add_snap :: "'w env \<Rightarrow> string \<Rightarrow> 'w image_ctx \<Rightarrow> (int \<times> 'w image_ctx) option" where
  "add_snap env snap_name' ictx =
     (let lock_owner = is_lock_owner env (world ictx) in
      if is_lock_supported env ictx \<and> \<not> lock_owner then None
      else
      case selfmanaged_snap_create env (world ictx) of
        (r, snap_id', w1) \<Rightarrow>
      if r < 0 then Some (r, ictx\<lparr>world := w1\<rparr>)
      else
      case (if old_format ictx then old_snapshot_add env snap_id' snap_name' w1
            else snapshot_add env lock_owner snap_id' snap_name' w1) of
        (r, w2) \<Rightarrow>
      if r < 0
      then (case selfmanaged_snap_remove env snap_id' w2 of
              (rm_r, w3) \<Rightarrow>
                Some (r, ictx\<lparr>calls := calls ictx @ [SelfmanagedSnapRemove snap_id' rm_r],
                              world := w3\<rparr>))
      else if old_format ictx then Some (0, ictx\<lparr>world := w2\<rparr>)
      else
      let w3 = om_snapshot_add env snap_id' w2 in
      if lock_owner
      then Some (0, ictx\<lparr>snapc := \<lparr>seq = snap_id', sc_snaps = snap_id' # sc_snaps (snapc ictx)\<rparr>,
                         world := selfmanaged_snap_set_write_ctx env snap_id' (snaps ictx) w3\<rparr>)
      else Some (0, ictx\<lparr>world := w3\<rparr>))"

text \<open>\<^verbatim>\<open>do { r = add_snap(ictx, snap_name); } while (r == -ESTALE);\<close>\<close>

partial_function (option) add_snap_retry ::
  "'w env \<Rightarrow> string \<Rightarrow> 'w image_ctx \<Rightarrow> (int \<times> 'w image_ctx) option" where
  "add_snap_retry env snap_name' ictx =
     (case add_snap env snap_name' ictx of
        None \<Rightarrow> None
      | Some (r, ictx') \<Rightarrow>
          if r = - ESTALE then add_snap_retry env snap_name' ictx' else Some (r, ictx'))"

text \<open>The flag \<open>ctx\<close> of a handler says that its \<^verbatim>\<open>Context *ctx\<close> is not \<^verbatim>\<open>NULL\<close>.\<close>

definition snap_create_helper ::
  "'w env \<Rightarrow> bool \<Rightarrow> string \<Rightarrow> 'w image_ctx \<Rightarrow> (int \<times> 'w image_ctx) option" where
  "snap_create_helper env ctx snap_name' ictx =
     (if \<not> owner_or_unsupported env ictx then None
      else
      case ictx_check env True ictx of
        None \<Rightarrow> None
      | Some (r, ictx1) \<Rightarrow>
      if r < 0 then Some (r, ictx1)
      else
      case flush' env ictx1 of
        (r, ictx2) \<Rightarrow>
      if r < 0 then Some (r, ictx2)
      else
      case add_snap_retry env snap_name' ictx2 of
        None \<Rightarrow> None
      | Some (r, ictx3) \<Rightarrow>
      if r < 0 then Some (r, ictx3)
      else Some (0, if ctx then ictx3\<lparr>completion := Some 0\<rparr> else ictx3))"

definition snap_create :: "'w env \<Rightarrow> string \<Rightarrow> 'w image_ctx \<Rightarrow> (int \<times> 'w image_ctx) option" where
  "snap_create env snap_name' ictx =
     (if read_only ictx then Some (- EROFS, ictx)
      else
      case ictx_check env False ictx of
        None \<Rightarrow> None
      | Some (r, ictx1) \<Rightarrow>
      if r < 0 then Some (r, ictx1)
      else if get_snap_id ictx1 snap_name' \<noteq> CEPH_NOSNAP then Some (- EEXIST, ictx1)
      else
      case invoke_async_request env True (snap_create_helper env True snap_name')
             (notify_snap_create env snap_name') ictx1 [] of
        None \<Rightarrow> None
      | Some (r, ictx2, t) \<Rightarrow>
      if r < 0 \<and> r \<noteq> - EEXIST then Some (r, ictx2)
      else Some (0, notify_change env ictx2))"

subsection \<open>Remove\<close>

text \<open>
  The loop of \<^verbatim>\<open>scan_for_parents\<close> over the snapshot table: skip the snapshot being
  removed, stop at the first other snapshot with the same parent spec.
\<close>

fun scan_loop :: "(snap_t \<times> SnapInfo) list \<Rightarrow> parent_spec \<Rightarrow> snap_t \<Rightarrow> bool" where
  "scan_loop [] pspec oursnap_id = False"
| "scan_loop ((k, info) # rest) pspec oursnap_id =
     (if k = oursnap_id then scan_loop rest pspec oursnap_id
      else if spec (parent_of info) = pspec then True
      else scan_loop rest pspec oursnap_id)"

definition scan_for_parents :: "'a image_core_scheme \<Rightarrow> parent_spec \<Rightarrow> snap_t \<Rightarrow> int" where
  "scan_for_parents ictx pspec oursnap_id =
     (if pool_id pspec \<noteq> - 1
      then (if scan_loop (snap_info ictx) pspec oursnap_id then 0 else - ENOENT)
      else 0)"

definition rm_snap :: "'w env \<Rightarrow> string \<Rightarrow> snap_t \<Rightarrow> 'w image_ctx \<Rightarrow> int \<times> 'w image_ctx" where
  "rm_snap env snap_name' snap_id' ictx =
     (case (if old_format ictx then old_snapshot_remove env snap_name' (world ictx)
            else snapshot_remove env snap_id' (world ictx)) of
        (r, w) \<Rightarrow>
          let ictx1 = ictx\<lparr>calls := calls ictx @ [HeaderSnapshotRemove snap_id' r], world := w\<rparr>;
              ictx2 = (if \<not> old_format ictx \<and> r = 0 then ictx_rm_snap snap_name' snap_id' ictx1
                       else ictx1)
          in if r < 0 then (r, ictx2) else (0, ictx2))"

definition snap_remove_helper ::
  "'w env \<Rightarrow> bool \<Rightarrow> string \<Rightarrow> 'w image_ctx \<Rightarrow> (int \<times> 'w image_ctx) option" where
  "snap_remove_helper env ctx snap_name' ictx =
     (if features ictx AND RBD_FEATURE_FAST_DIFF \<noteq> 0 \<and> \<not> owner_or_unsupported env ictx then None
      else
      case ictx_check env True ictx of
        None \<Rightarrow> None
      | Some (r, ictx1) \<Rightarrow>
      if r < 0 then Some (r, ictx1)
      else
      let snap_id' = get_snap_id ictx1 snap_name' in
      if snap_id' = CEPH_NOSNAP then Some (- ENOENT, ictx1)
      else
      case om_snapshot_remove env snap_id' (world ictx1) of
        (r, w2) \<Rightarrow>
      let ictx2 = ictx1\<lparr>calls := calls ictx1 @ [OmSnapshotRemove snap_id' r], world := w2\<rparr> in
      if r < 0 then Some (r, ictx2)
      else
      case get_parent_spec ictx2 snap_id' of
        None \<Rightarrow> Some (- ENOENT, ictx2)
      | Some our_pspec \<Rightarrow>
      case (if spec (parent_md ictx2) \<noteq> our_pspec \<and>
               scan_for_parents ictx2 our_pspec snap_id' = - ENOENT
            then (case remove_child env our_pspec (id ictx2) (world ictx2) of
                    (r, w3) \<Rightarrow>
                      (r < 0 \<and> r \<noteq> - ENOENT, r,
                       ictx2\<lparr>calls := calls ictx2 @ [RemoveChild our_pspec (id ictx2) r],
                             world := w3\<rparr>))
            else (False, 0, ictx2)) of
        (returned, r, ictx3) \<Rightarrow>
      if returned then Some (r, ictx3)
      else
      case rm_snap env snap_name' snap_id' ictx3 of
        (r, ictx4) \<Rightarrow>
      if r < 0 then Some (r, ictx4)
      else
      case selfmanaged_snap_remove env snap_id' (world ictx4) of
        (r, w5) \<Rightarrow>
      let ictx5 = ictx4\<lparr>calls := calls ictx4 @ [SelfmanagedSnapRemove snap_id' r], world := w5\<rparr> in
      if r < 0 then Some (r, ictx5)
      else Some (0, if ctx then ictx5\<lparr>completion := Some 0\<rparr> else ictx5))"

definition snap_remove :: "'w env \<Rightarrow> string \<Rightarrow> 'w image_ctx \<Rightarrow> (int \<times> 'w image_ctx) option" where
  "snap_remove env snap_name' ictx =
     (if read_only ictx then Some (- EROFS, ictx)
      else
      case ictx_check env False ictx of
        None \<Rightarrow> None
      | Some (r, ictx1) \<Rightarrow>
      if r < 0 then Some (r, ictx1)
      else if get_snap_id ictx1 snap_name' = CEPH_NOSNAP then Some (- ENOENT, ictx1)
      else
      let fast_diff_enabled = (features ictx1 AND RBD_FEATURE_FAST_DIFF \<noteq> 0) in
      if fast_diff_enabled
      then (case invoke_async_request env True (snap_remove_helper env True snap_name')
                   (notify_snap_remove env snap_name') ictx1 [] of
              None \<Rightarrow> None
            | Some (r, ictx2, t) \<Rightarrow>
                if r < 0 \<and> r \<noteq> - EEXIST then Some (r, ictx2)
                else Some (0, notify_change env ictx2))
      else (case snap_remove_helper env False snap_name' ictx1 of
              None \<Rightarrow> None
            | Some (r, ictx2) \<Rightarrow>
                if r < 0 then Some (r, ictx2)
                else Some (0, notify_change env ictx2)))"

subsection \<open>Unprotect and the protection query\<close>




text \<open>
  \<^verbatim>\<open>snap_is_protected\<close> returns its \<^verbatim>\<open>int\<close> and writes \<^verbatim>\<open>*is_protected\<close>; the
  output is \<open>None\<close> where the C function does not write it, or writes the negation of a
  variable that was never set.
\<close>

definition snap_is_protected ::
  "'w env \<Rightarrow> string \<Rightarrow> 'w image_ctx \<Rightarrow> (int \<times> bool option \<times> 'w image_ctx) option" where
  "snap_is_protected env snap_name' ictx =
     (case ictx_check env False ictx of
        None \<Rightarrow> None
      | Some (r, ictx1) \<Rightarrow>
      if r < 0 then Some (r, None, ictx1)
      else
      let snap_id' = get_snap_id ictx1 snap_name' in
      if snap_id' = CEPH_NOSNAP then Some (- ENOENT, None, ictx1)
      else
      case is_snap_unprotected ictx1 snap_id' of
        None \<Rightarrow> Some (- ENOENT, None, ictx1)
      | Some is_unprotected \<Rightarrow> Some (0, Some (\<not> is_unprotected), ictx1))"

subsection \<open>Resize and rollback\<close>

definition async_resize_helper :: "'w env \<Rightarrow> 64 word \<Rightarrow> 'w image_ctx \<Rightarrow> 'w image_ctx" where
  "async_resize_helper env new_size ictx =
     ictx\<lparr>world := send_resize_request env new_size (world ictx)\<rparr>"

definition async_resize :: "'w env \<Rightarrow> 64 word \<Rightarrow> 'w image_ctx \<Rightarrow> (int \<times> 'w image_ctx) option" where
  "async_resize env size' ictx =
     (if \<not> owner_or_unsupported env ictx then None
      else
      case ictx_check env True ictx of
        None \<Rightarrow> None
      | Some (r, ictx1) \<Rightarrow>
      if r < 0 then Some (r, ictx1)
      else if snap_id ictx1 \<noteq> CEPH_NOSNAP \<or> read_only ictx1 then Some (- EROFS, ictx1)
      else Some (0, async_resize_helper env size' ictx1))"

definition resize :: "'w env \<Rightarrow> 64 word \<Rightarrow> 'w image_ctx \<Rightarrow> (int \<times> 'w image_ctx) option" where
  "resize env size' ictx =
     (case ictx_check env False ictx of
        None \<Rightarrow> None
      | Some (r, ictx1) \<Rightarrow>
      if r < 0 then Some (r, ictx1)
      else
      case invoke_async_request env False (async_resize env size') (notify_resize env size')
             ictx1 [] of
        None \<Rightarrow> None
      | Some (r, ictx2, t) \<Rightarrow> Some (r, notify_change env ictx2))"

definition rollback_image :: "'w env \<Rightarrow> snap_t \<Rightarrow> 'w image_ctx \<Rightarrow> int \<times> 'w image_ctx" where
  "rollback_image env snap_id' ictx =
     (case rollback_objects env snap_id' (world ictx) of
        (r, w) \<Rightarrow>
          if r < 0 then (r, ictx\<lparr>world := w\<rparr>)
          else (0, ictx\<lparr>world := om_rollback env snap_id' w\<rparr>))"

definition snap_rollback :: "'w env \<Rightarrow> string \<Rightarrow> 'w image_ctx \<Rightarrow> (int \<times> 'w image_ctx) option" where
  "snap_rollback env snap_name' ictx =
     (case ictx_check env False ictx of
        None \<Rightarrow> None
      | Some (r, ictx1) \<Rightarrow>
      if r < 0 then Some (r, ictx1)
      else if \<not> snap_exists ictx1 then Some (- ENOENT, ictx1)
      else if snap_id ictx1 \<noteq> CEPH_NOSNAP \<or> read_only ictx1 then Some (- EROFS, ictx1)
      else
      let snap_id' = get_snap_id ictx1 snap_name' in
      if snap_id' = CEPH_NOSNAP then Some (- ENOENT, ictx1)
      else
      case prepare_image_update env ictx1 [] of
        (r, ictx2, t) \<Rightarrow>
      if r < 0 then Some (- EROFS, ictx2)
      else if is_lock_supported env ictx2 \<and> \<not> is_lock_owner env (world ictx2)
      then Some (- EROFS, ictx2)
      else
      let new_size = get_image_size ictx2 snap_id' in
      case invalidate_cache env (flush_async_operations env (world ictx2)) of
        (r, w3) \<Rightarrow>
      if r < 0 then Some (r, ictx2\<lparr>world := w3\<rparr>)
      else
      case wait_completion env (world (async_resize_helper env new_size (ictx2\<lparr>world := w3\<rparr>))) of
        (r, w4) \<Rightarrow>
      if r < 0 then Some (r, ictx2\<lparr>world := w4\<rparr>)
      else
      case rollback_image env snap_id' (ictx2\<lparr>world := w4\<rparr>) of
        (r, ictx5) \<Rightarrow>
      if r < 0 then Some (r, ictx5)
      else Some (r, notify_change env ictx5))"

text \<open>
  \<^verbatim>\<open>clip_io\<close> validates an extent of an I/O request against the size of the active
  view; the length is an in-out parameter.
\<close>

definition clip_io :: "'a image_core_scheme \<Rightarrow> 64 word \<Rightarrow> 64 word \<Rightarrow> int \<times> 64 word" where
  "clip_io ictx off len =
     (let image_size' = get_image_size ictx (snap_id ictx) in
      if \<not> snap_exists ictx then (- ENOENT, len)
      else if len = 0 then (0, len)
      else if image_size' \<le> off then (- EINVAL, len)
      else if image_size' < off + len then (0, image_size' - off)
      else (0, len))"

section \<open>Properties of a run of the coordinator\<close>

text \<open>
  \<open>read_held t\<close> says that after the events \<open>t\<close> the thread holds \<^verbatim>\<open>owner_lock\<close> in
  read mode.
\<close>

fun lock_step :: "event \<Rightarrow> bool \<Rightarrow> bool" where
  "lock_step OwnerRLock h = True"
| "lock_step OwnerRUnlock h = False"
| "lock_step e h = h"

definition read_held :: "event list \<Rightarrow> bool" where
  "read_held t = fold lock_step t False"

text \<open>
  Every dispatch of the local handler comes directly after an answer of
  \<^verbatim>\<open>is_lock_owner()\<close> that was true, or of \<^verbatim>\<open>is_lock_supported()\<close> that was false,
  and the read lock was held when that answer was given.
\<close>

definition dispatch_guarded :: "event list \<Rightarrow> bool" where
  "dispatch_guarded t \<longleftrightarrow>
     (\<forall>pre r post. t = pre @ Dispatched r # post \<longrightarrow>
        (\<exists>pre' e. pre = pre' @ [e] \<and> read_held pre' \<and>
                  (e = ObservedOwner True \<or> e = Supported False)))"

text \<open>
  What may come directly after an event. After a remote forward that answered
  \<open>-ETIMEDOUT\<close> or \<open>-ERESTART\<close> the loop asks \<^verbatim>\<open>is_lock_supported()\<close> again; after
  any other answer of the forward, and after the dispatch of the handler, the read lock
  is released; after the awaited outcome of the handler, which then is \<open>-ERESTART\<close>,
  the read lock is taken again.
\<close>

fun retry_step :: "event \<Rightarrow> event \<Rightarrow> bool" where
  "retry_step (Forwarded r) e =
     (if r = - ETIMEDOUT \<or> r = - ERESTART then e = Supported True \<or> e = Supported False
      else e = OwnerRUnlock)"
| "retry_step (Dispatched r) e = (e = OwnerRUnlock)"
| "retry_step (Awaited r) e = (r = - ERESTART \<and> e = OwnerRLock)"
| "retry_step e e' = True"

text \<open>Events that are neither a forward, nor a dispatch, nor an awaited outcome.\<close>

definition plain :: "event list \<Rightarrow> bool" where
  "plain ev \<longleftrightarrow>
     (\<forall>x. Dispatched x \<notin> set ev) \<and> (\<forall>x. Forwarded x \<notin> set ev) \<and> (\<forall>x. Awaited x \<notin> set ev)"

text \<open>
  Where a returned value \<open>r\<close> comes from, read off the end of the events \<open>E\<close>: from a
  remote forward that answered neither \<open>-ETIMEDOUT\<close> nor \<open>-ERESTART\<close>, from a dispatch
  of the handler that returned a negative value at once, from the awaited outcome of the
  handler when it is not \<open>-ERESTART\<close>, or it is the \<open>-EROFS\<close> of a rejected request.
\<close>

definition exit_class :: "int \<Rightarrow> event list \<Rightarrow> bool" where
  "exit_class r E \<longleftrightarrow>
     (\<exists>pre. E = pre @ [Forwarded r, OwnerRUnlock] \<and> r \<noteq> - ETIMEDOUT \<and> r \<noteq> - ERESTART) \<or>
     (\<exists>pre. E = pre @ [Dispatched r, OwnerRUnlock] \<and> r < 0) \<or>
     (\<exists>pre. E = pre @ [Awaited r] \<and> r \<noteq> - ERESTART) \<or>
     (r = - EROFS \<and> (\<exists>pre e. E = pre @ [e, OwnerRUnlock] \<and> plain [e]))"

text \<open>
  What the run does with each answer it gets, where \<open>post\<close> are the events after the
  answer and \<open>r\<close> is the value the run returns. After a remote forward that answered
  \<open>-ETIMEDOUT\<close> or \<open>-ERESTART\<close> the run goes on with a new query of
  \<^verbatim>\<open>is_lock_supported()\<close>; after any other answer of the forward it releases the read
  lock and ends, and the answer is the value returned. After a dispatch of the handler
  that returned a negative value it releases the read lock and ends, and that value is the
  value returned; after any other dispatch it releases the read lock and waits for the
  outcome of the handler. After an awaited outcome \<open>-ERESTART\<close> it starts again by
  taking the owner lock; any other awaited outcome ends the run and is the value returned.
\<close>

fun answered :: "int \<Rightarrow> event \<Rightarrow> event list \<Rightarrow> bool" where
  "answered r (Forwarded x) post =
     (if x = - ETIMEDOUT \<or> x = - ERESTART
      then (case post of Supported b # post' \<Rightarrow> True | _ \<Rightarrow> False)
      else post = [OwnerRUnlock] \<and> r = x)"
| "answered r (Dispatched x) post =
     (if x < 0 then post = [OwnerRUnlock] \<and> r = x
      else (case post of OwnerRUnlock # Awaited y # post' \<Rightarrow> True | _ \<Rightarrow> False))"
| "answered r (Awaited y) post =
     (if y = - ERESTART then (case post of OwnerRLock # post' \<Rightarrow> True | _ \<Rightarrow> False)
      else post = [] \<and> r = y)"
| "answered r e post = True"

fun settles :: "int \<Rightarrow> event list \<Rightarrow> bool" where
  "settles r [] = True"
| "settles r (e # post) = (answered r e post \<and> settles r post)"

text \<open>What holds of a result of the inner loop and of the whole coordinator.\<close>

definition req_post :: "event list \<Rightarrow> int option \<times> 's \<times> event list \<Rightarrow> bool" where
  "req_post t y =
     (case y of (res, ictx', t') \<Rightarrow>
        \<exists>ev b. t' = t @ Supported b # ev \<and> successively retry_step (Supported b # ev) \<and>
           (\<forall>x. Dispatched x \<notin> set ev) \<and> (\<forall>x. Awaited x \<notin> set ev) \<and>
           (read_held t \<longrightarrow> read_held t') \<and>
           (case res of
              None \<Rightarrow> (\<exists>ev'. Supported b # ev = ev' @ [Supported False]) \<or>
                       (\<exists>ev'. Supported b # ev = ev' @ [ObservedOwner True])
            | Some r \<Rightarrow> (\<exists>ev'. Supported b # ev = ev' @ [Forwarded r] \<and>
                               r \<noteq> - ETIMEDOUT \<and> r \<noteq> - ERESTART) \<or>
                        (r = - EROFS \<and> (\<exists>ev' e. Supported b # ev = ev' @ [e] \<and> plain [e]))))"

definition inv_post :: "event list \<Rightarrow> int \<times> 's \<times> event list \<Rightarrow> bool" where
  "inv_post t y =
     (case y of (r, ictx', t') \<Rightarrow>
        \<exists>E. t' = t @ E \<and> successively retry_step E \<and> (\<exists>E'. E = OwnerRLock # E') \<and>
          (dispatch_guarded t \<longrightarrow> dispatch_guarded t') \<and>
          exit_class r E)"

section \<open>Properties of the log of an unprotect\<close>








text \<open>
  What comes directly after a step of the scan. A lookup that finds the pool to be its
  own base tier is followed by the opening of that pool, and an opening that succeeds by
  the search of that pool for children of the snapshot; after any other step comes the
  lookup of the next pool, or nothing.
\<close>

fun lookup_next :: "call list \<Rightarrow> bool" where
  "lookup_next [] = True"
| "lookup_next (PoolGetBaseTier p b r # post) = True"
| "lookup_next (c # post) = False"

fun followed_up :: "call \<Rightarrow> call list \<Rightarrow> bool" where
  "followed_up (PoolGetBaseTier p b r) post =
     (if 0 \<le> r \<and> p = b
      then (case post of IoctxCreate2 p' r' # post' \<Rightarrow> p' = p | _ \<Rightarrow> False)
      else lookup_next post)"
| "followed_up (IoctxCreate2 p r) post =
     (if 0 \<le> r
      then (case post of GetChildren p' r' # post' \<Rightarrow> p' = p | _ \<Rightarrow> False)
      else lookup_next post)"
| "followed_up c post = lookup_next post"

fun scan_chain :: "call list \<Rightarrow> bool" where
  "scan_chain [] = True"
| "scan_chain (c # post) = (followed_up c post \<and> scan_chain post)"


section \<open>Properties of the log of a rejected remove\<close>


section \<open>Properties of the log of opening the parent\<close>

fun result_of :: "call \<Rightarrow> int" where
  "result_of (SetProtectionStatus i st r) = r"
| "result_of (PoolGetBaseTier p b r) = r"
| "result_of (IoctxCreate2 p r) = r"
| "result_of (GetChildren p r) = r"
| "result_of (OmSnapshotRemove i r) = r"
| "result_of (RemoveChild ps c r) = r"
| "result_of (HeaderSnapshotRemove i r) = r"
| "result_of (SelfmanagedSnapRemove i r) = r"
| "result_of (PoolReverseLookup p r) = r"
| "result_of (IoctxCreate n r) = r"
| "result_of (OpenImage n r) = r"
| "result_of (GetSnapName i r) = r"
| "result_of (RefreshParent r) = r"
| "result_of (CloseImage r) = r"

fun is_close :: "call \<Rightarrow> bool" where
  "is_close (CloseImage r) = True"
| "is_close c = False"

fun is_open :: "call \<Rightarrow> bool" where
  "is_open (OpenImage n r) = True"
| "is_open c = False"

text \<open>
  The steps \<open>cs\<close> of an \<^verbatim>\<open>open_parent\<close> that fails with \<open>r\<close>. Either no step was made
  and \<open>r\<close> is \<open>-ENOENT\<close> (the device has no parent pool), or the steps before the last
  one succeeded, the step \<open>c\<close> that failed returned \<open>r\<close>, and after it the handle of
  the parent is closed exactly when it had been opened before.
\<close>

definition open_failed :: "int \<Rightarrow> call list \<Rightarrow> bool" where
  "open_failed r cs \<longleftrightarrow>
     (cs = [] \<and> r = - ENOENT) \<or>
     (\<exists>pre c post. cs = pre @ c # post \<and> list_all (\<lambda>x. 0 \<le> result_of x) pre \<and>
        \<not> list_ex is_close pre \<and> \<not> is_close c \<and> result_of c = r \<and>
        (if list_ex is_open pre then \<exists>x. post = [CloseImage x] else post = []))"

text \<open>
  The teardown of an \<^verbatim>\<open>open_parent\<close> that fails with \<open>r\<close> after the handle of the
  parent was opened. \<^verbatim>\<open>close_image\<close> is called on the handle as the failed step left
  it, in the world that step left: on the handle \<^verbatim>\<open>open_image\<close> returned when the
  snapshot of the parent is missing from it, on the handle the refresh of its own parent
  linkage returned when that refresh failed with \<open>r\<close>. The log \<open>cs\<close> ends with the
  failed step and the result of \<^verbatim>\<open>close_image\<close>, and \<open>w'\<close> is the world
  \<^verbatim>\<open>close_image\<close> leaves.
\<close>

definition handle_closed :: "'w env \<Rightarrow> int \<Rightarrow> call list \<Rightarrow> 'w \<Rightarrow> bool" where
  "handle_closed env r cs w' \<longleftrightarrow>
     (\<exists>p1 w2 r3 p2 w3.
        parent_open_image env p1 w2 = (r3, p2, w3) \<and> 0 \<le> r3 \<and>
        ((\<exists>pre i. r = - ENOENT \<and> get_snap_name p2 i = None \<and>
            cs = pre @ [GetSnapName i (- ENOENT),
                        CloseImage (fst (parent_close_image env p2 w3))] \<and>
            w' = snd (parent_close_image env p2 w3)) \<or>
         (\<exists>pre p3 p4 w4.
            parent_refresh_parent env p3 w3 = (r, p4, w4) \<and>
            cs = pre @ [RefreshParent r, CloseImage (fst (parent_close_image env p4 w4))] \<and>
            w' = snd (parent_close_image env p4 w4))))"

section \<open>A concrete device for evaluation\<close>

text \<open>
  A quiet environment: every collaborator succeeds and changes nothing, the header of
  the device is empty, the exclusive lock is not supported. The world is a counter that
  a collaborator may use to answer differently from one call to the next. The examples
  below change one collaborator at a time.
\<close>

definition quiet :: "nat env" where
  "quiet =
     \<lparr>RBD_FEATURES_ALL = 31,
      is_valid = (\<lambda>c. True),
      is_lock_supported = (\<lambda>ictx. False),
      is_lock_owner = (\<lambda>w. False),
      try_lock = (\<lambda>w. (0, w)),
      notify_snap_create = (\<lambda>n w. (0, w)),
      notify_snap_remove = (\<lambda>n w. (0, w)),
      notify_resize = (\<lambda>n w. (0, w)),
      notify_header_update = (\<lambda>w. w),
      wait_completion = (\<lambda>w. (0, w)),
      interference = (\<lambda>w. w),
      read_header = (\<lambda>w. (0, \<lparr>image_size = 0, options_order = 22, block_name = ''rb.0.0.0''\<rparr>, w)),
      old_snapshot_list =
        (\<lambda>w. (0, \<lparr>ol_names = [], ol_sizes = [], ol_snapc = \<lparr>seq = 0, sc_snaps = []\<rparr>\<rparr>, w)),
      get_lock_info = (\<lambda>w. (0, \<lparr>li_lockers = [], li_exclusive = False, li_tag = []\<rparr>, w)),
      get_mutable_metadata =
        (\<lambda>ro w. (0, \<lparr>mm_size = 0, mm_features = 0, mm_incompatible_features = 0,
                      mm_lockers = [], mm_exclusive_locked = False, mm_lock_tag = [],
                      mm_snapc = \<lparr>seq = 0, sc_snaps = []\<rparr>, mm_parent_md = no_parent_info\<rparr>, w)),
      get_flags = (\<lambda>ids w. (0, (0, map (\<lambda>i. 0) ids), w)),
      snapshot_list =
        (\<lambda>ids w. (0, \<lparr>sl_names = [], sl_sizes = [], sl_parents = [], sl_protection = []\<rparr>, w)),
      set_protection_status = (\<lambda>i st w. (0, w)),
      old_snapshot_add = (\<lambda>i n w. (0, w)),
      snapshot_add = (\<lambda>l i n w. (0, w)),
      old_snapshot_remove = (\<lambda>n w. (0, w)),
      snapshot_remove = (\<lambda>i w. (0, w)),
      remove_child = (\<lambda>ps c w. (0, w)),
      get_children = (\<lambda>pool ps w. (- ENOENT, [], w)),
      selfmanaged_snap_create = (\<lambda>w. (0, 1, w)),
      selfmanaged_snap_remove = (\<lambda>i w. (0, w)),
      selfmanaged_snap_set_write_ctx = (\<lambda>sq sn w. w),
      wait_for_latest_osdmap = (\<lambda>w. w),
      pool_list2 = (\<lambda>w. ([], w)),
      pool_get_base_tier = (\<lambda>pool w. (0, pool, w)),
      ioctx_create2 = (\<lambda>pool w. (0, w)),
      pool_reverse_lookup = (\<lambda>pool w. (0, ''rbd'', w)),
      ioctx_create = (\<lambda>n w. (0, 2, w)),
      rollback_objects = (\<lambda>i w. (0, w)),
      om_snapshot_add = (\<lambda>i w. w),
      om_snapshot_remove = (\<lambda>i w. (0, w)),
      om_refresh = (\<lambda>i w. w),
      om_rollback = (\<lambda>i w. w),
      object_cacher = False,
      flush_cache = (\<lambda>w. (0, w)),
      aio_flush = (\<lambda>w. (0, w)),
      flush_async_operations = (\<lambda>w. w),
      invalidate_cache = (\<lambda>w. (0, w)),
      clear_nonexistence_cache = (\<lambda>w. w),
      send_resize_request = (\<lambda>n w. w),
      parent_open_image = (\<lambda>p w. (0, p, w)),
      parent_refresh_parent = (\<lambda>p w. (0, p, w)),
      parent_close_image = (\<lambda>p w. (0, w))\<rparr>"

text \<open>
  A current-format device, open on its live view and up to date, with the layering
  feature and no snapshots.
\<close>

definition fresh :: "nat image_ctx" where
  "fresh =
     \<lparr>read_only = False, old_format = False, id = ''10074b0dc51'', md_pool_id = 2,
      snap_id = CEPH_NOSNAP, snap_name = [], snap_exists = True, size = 100, order = 22,
      object_prefix = ''rbd_data.10074b0dc51'', features = RBD_FEATURE_LAYERING, flags = 0,
      lockers = [], exclusive_locked = False, lock_tag = [],
      snapc = \<lparr>seq = 0, sc_snaps = []\<rparr>, snaps = [], snap_info = [], snap_ids = [],
      parent_md = no_parent_info, read_flags = [], last_refresh = 0, refresh_seq = 0,
      parent = None, balance_parent_reads = False, localize_parent_reads = False,
      watcher_present = True, completion = None, live_parents = 0, calls = [], world = 0\<rparr>"

text \<open>
  A device with the exclusive lock whose client is the owner, and one whose client is
  not the owner and cannot become it: the owner answers the forwarded request.
\<close>

definition owner :: "nat env" where
  "owner = quiet\<lparr>is_lock_supported := (\<lambda>ictx. True), is_lock_owner := (\<lambda>w. True)\<rparr>"

definition peer_owns :: "int \<Rightarrow> nat env" where
  "peer_owns answer =
     quiet\<lparr>is_lock_supported := (\<lambda>ictx. True),
           notify_snap_create := (\<lambda>n w. (answer, w)),
           notify_snap_remove := (\<lambda>n w. (answer, w)),
           notify_resize := (\<lambda>n w. (answer, w))\<rparr>"





text \<open>The same device with one snapshot \<open>s1\<close> of id 4 and a given protection status.\<close>

definition with_s1 :: "8 word \<Rightarrow> nat image_ctx" where
  "with_s1 status =
     fresh\<lparr>snapc := \<lparr>seq = 4, sc_snaps = [4]\<rparr>, snaps := [4],
           snap_info := [(4, \<lparr>name = ''s1'', si_size = 100, parent_of = no_parent_info,
                               protection_status = status, si_flags = 0\<rparr>)],
           snap_ids := [(''s1'', 4)]\<rparr>"

text \<open>
  A clone of snapshot 7 of the device \<open>1002ae8944a\<close> in pool 2, whose handle of the
  parent is not open. In \<open>parent_ok\<close> the parent opens with its snapshot \<open>base\<close> of
  id 7; in the quiet environment the parent opens without any snapshot.
\<close>

definition clone :: "nat image_ctx" where
  "clone =
     fresh\<lparr>parent_md := \<lparr>spec = \<lparr>pool_id = 2, image_id = ''1002ae8944a'', ps_snap_id = 7\<rparr>,
                          overlap = 100\<rparr>\<rparr>"




text \<open>
  An environment in which closing a handle is seen in the world and fails, and the clone
  after its overlap with the parent has dropped to zero, with the handle of the parent
  still cached.
\<close>

definition close_counts :: "nat env" where
  "close_counts = quiet\<lparr>parent_close_image := (\<lambda>p w. (- EIO, w + 10))\<rparr>"


section \<open>Properties\<close>

subsection \<open>The parent at zero overlap\<close>






subsection \<open>The protection query\<close>

text \<open>
  Claim C10. For a live snapshot the public protection query succeeds and reports
  "protected" exactly when the status of the snapshot is not \<open>unprotected\<close>; a snapshot
  whose status is \<open>protected\<close> or the transitional \<open>unprotecting\<close> is reported as
  protected. The snapshot is live in the handle as \<^const>\<open>ictx_check\<close> leaves it.
\<close>

theorem snap_is_protected_unless_unprotected:
  assumes "ictx_check env False ictx = Some (r, ictx1)" and "0 \<le> r"
    and "map_of (snap_ids ictx1) nm = Some i" and "i \<noteq> CEPH_NOSNAP"
    and "map_of (snap_info ictx1) i = Some info"
  shows "snap_is_protected env nm ictx =
           Some (0, Some (protection_status info \<noteq> RBD_PROTECTION_STATUS_UNPROTECTED), ictx1) \<and>
         (protection_status info = RBD_PROTECTION_STATUS_PROTECTED \<or>
          protection_status info = RBD_PROTECTION_STATUS_UNPROTECTING \<longrightarrow>
          snap_is_protected env nm ictx = Some (0, Some True, ictx1))"
  using assms
  by (auto simp add: snap_is_protected_def get_snap_id_def is_snap_unprotected_def
      get_snap_info_def)

theorem snap_is_protected_unless_unprotected_witness:
  "snap_is_protected quiet ''s1'' (with_s1 RBD_PROTECTION_STATUS_UNPROTECTING) =
     Some (0, Some True, with_s1 RBD_PROTECTION_STATUS_UNPROTECTING)"
  using snap_is_protected_unless_unprotected [of quiet "with_s1 RBD_PROTECTION_STATUS_UNPROTECTING" 0
      "with_s1 RBD_PROTECTION_STATUS_UNPROTECTING" "''s1''" 4
      "\<lparr>name = ''s1'', si_size = 100, parent_of = no_parent_info,
        protection_status = RBD_PROTECTION_STATUS_UNPROTECTING, si_flags = 0\<rparr>"]
  by (simp add: ictx_check_def with_s1_def fresh_def CEPH_NOSNAP_def)


subsection \<open>Runs of the lock coordinator\<close>

lemma read_held_append: "read_held (t @ ev) = fold lock_step ev (read_held t)"
  by (simp add: read_held_def)

lemma guarded_snoc_other:
  assumes "dispatch_guarded t" and "\<And>r. e \<noteq> Dispatched r"
  shows "dispatch_guarded (t @ [e])"
  unfolding dispatch_guarded_def
proof (intro allI impI)
  fix pre r post
  assume eq: "t @ [e] = pre @ Dispatched r # post"
  show "\<exists>pre' e. pre = pre' @ [e] \<and> read_held pre' \<and> (e = ObservedOwner True \<or> e = Supported False)"
  proof (cases post rule: rev_cases)
    case Nil
    with eq assms(2) show ?thesis by auto
  next
    case (snoc post' x)
    with eq have "t = pre @ Dispatched r # post'" by simp
    with assms(1) show ?thesis unfolding dispatch_guarded_def by blast
  qed
qed

lemma guarded_snoc_dispatch:
  assumes "dispatch_guarded (p @ [e])" and "read_held p"
    and "e = ObservedOwner True \<or> e = Supported False"
  shows "dispatch_guarded (p @ [e] @ [Dispatched r])"
  unfolding dispatch_guarded_def
proof (intro allI impI)
  fix pre r' post
  assume eq: "p @ [e] @ [Dispatched r] = pre @ Dispatched r' # post"
  show "\<exists>pre' e. pre = pre' @ [e] \<and> read_held pre' \<and> (e = ObservedOwner True \<or> e = Supported False)"
  proof (cases post rule: rev_cases)
    case Nil
    with eq have "pre = p @ [e]" by simp
    with assms(2,3) show ?thesis by blast
  next
    case (snoc post' x)
    with eq have "p @ [e] = pre @ Dispatched r' # post'" by simp
    with assms(1) show ?thesis unfolding dispatch_guarded_def by blast
  qed
qed

lemma guarded_append_other:
  "dispatch_guarded t \<Longrightarrow> (\<forall>r. Dispatched r \<notin> set ev) \<Longrightarrow> dispatch_guarded (t @ ev)"
proof (induction ev rule: rev_induct)
  case Nil then show ?case by simp
next
  case (snoc x xs)
  then have "dispatch_guarded ((t @ xs) @ [x])"
    by (intro guarded_snoc_other) auto
  then show ?case by simp
qed

lemma plain_simps [simp]:
  "plain []"
  "plain (e # ev) \<longleftrightarrow>
     (\<forall>x. e \<noteq> Dispatched x) \<and> (\<forall>x. e \<noteq> Forwarded x) \<and> (\<forall>x. e \<noteq> Awaited x) \<and> plain ev"
  "plain (ev @ ev') \<longleftrightarrow> plain ev \<and> plain ev'"
  by (auto simp add: plain_def)

lemma plain_successively: "plain ev \<Longrightarrow> successively retry_step ev"
proof (induction ev)
  case Nil then show ?case by simp
next
  case (Cons e ev)
  then show ?case by (cases e; cases ev) auto
qed

lemma plain_retry_step_last: "plain ev \<Longrightarrow> ev \<noteq> [] \<Longrightarrow> retry_step (last ev) e"
  by (cases "last ev") (auto simp add: plain_def dest: last_in_set)

lemma prepare_image_update_plain:
  assumes "prepare_image_update env ictx t = (r, ictx', t')"
  shows "\<exists>ev. t' = t @ ev \<and> plain ev \<and> (read_held t \<longrightarrow> read_held t')"
  using assms
  by (auto simp add: prepare_image_update_def Let_def read_held_append
      split: if_splits prod.splits)

lemmas request_lock_induct = request_lock.raw_induct [rotated 1, consumes 1, case_names body]

lemma req_postI:
  assumes "t' = t @ Supported b # ev" and "successively retry_step (Supported b # ev)"
    and "\<forall>x. Dispatched x \<notin> set ev" and "\<forall>x. Awaited x \<notin> set ev"
    and "read_held t \<longrightarrow> read_held t'"
    and "case res of
           None \<Rightarrow> (\<exists>ev'. Supported b # ev = ev' @ [Supported False]) \<or>
                    (\<exists>ev'. Supported b # ev = ev' @ [ObservedOwner True])
         | Some r \<Rightarrow> (\<exists>ev'. Supported b # ev = ev' @ [Forwarded r] \<and>
                            r \<noteq> - ETIMEDOUT \<and> r \<noteq> - ERESTART) \<or>
                     (r = - EROFS \<and> (\<exists>ev' e. Supported b # ev = ev' @ [e] \<and> plain [e]))"
  shows "req_post t (res, ictx', t')"
  unfolding req_post_def prod.case
  by (rule exI [of _ ev], rule exI [of _ b]) (use assms in blast)

lemma ends_prepend: "\<exists>ev'. xs = ev' @ l \<Longrightarrow> \<exists>ev'. ys @ xs = ev' @ l"
  by (metis append.assoc)

lemma request_lock_trace:
  assumes "request_lock env remote_request ictx t = Some y"
  shows "req_post t y"
  using assms
proof (induct rule: request_lock_induct)
  case (body f env remote_request ictx t y)
  obtain res ictx' t' where y: "y = (res, ictx', t')" by (cases y) auto
  note bd = body(2) [unfolded y]
  show ?case
  proof (cases "is_lock_supported env ictx")
    case False
    with bd have "res = None" "t' = t @ [Supported False]" by auto
    then show ?thesis
      unfolding y by (intro req_postI [where ev = "[]" and b = False]) (simp_all add: read_held_append)
  next
    case True
    obtain r ictx1 t1 where p: "prepare_image_update env ictx (t @ [Supported True]) = (r, ictx1, t1)"
      by (cases "prepare_image_update env ictx (t @ [Supported True])") auto
    from prepare_image_update_plain [OF p] obtain ev1 where
      t1: "t1 = (t @ [Supported True]) @ ev1" and pl: "plain ev1"
      and rh: "read_held (t @ [Supported True]) \<longrightarrow> read_held t1" by blast
    have rh': "read_held t \<longrightarrow> read_held t1" using rh by (simp add: read_held_append)
    have s1: "successively retry_step (Supported True # ev1)"
      using plain_successively [of "Supported True # ev1"] pl by simp
    have nd1: "\<forall>x. Dispatched x \<notin> set ev1" "\<forall>x. Awaited x \<notin> set ev1"
      using pl by (auto simp add: plain_def)
    show ?thesis
    proof (cases "r < 0")
      case neg: True
      with bd True p have res: "res = Some (- EROFS)" "t' = t1" by auto
      have "\<exists>ev' e. Supported True # ev1 = ev' @ [e] \<and> plain [e]"
        using pl by (cases ev1 rule: rev_cases) auto
      then show ?thesis
        unfolding y res using t1 s1 nd1 rh' by (intro req_postI [where ev = ev1 and b = True]) simp_all
    next
      case nonneg: False
      show ?thesis
      proof (cases "is_lock_owner env (world ictx1)")
        case owner: True
        with bd True p nonneg have res: "res = None" "t' = t1 @ [ObservedOwner True]" by auto
        have "successively retry_step ((Supported True # ev1) @ [ObservedOwner True])"
          using plain_successively [of "(Supported True # ev1) @ [ObservedOwner True]"] pl by simp
        moreover have "\<exists>ev'. Supported True # ev1 @ [ObservedOwner True] = ev' @ [ObservedOwner True]"
          by (rule exI [of _ "Supported True # ev1"]) simp
        ultimately show ?thesis
          unfolding y res using t1 nd1 rh'
          by (intro req_postI [where ev = "ev1 @ [ObservedOwner True]" and b = True])
             (simp_all add: read_held_append)
      next
        case notowner: False
        obtain r2 w where rr: "remote_request (world ictx1) = (r2, w)"
          by (cases "remote_request (world ictx1)") auto
        let ?mid = "ev1 @ [ObservedOwner False, Forwarded r2]"
        let ?t2 = "t1 @ [ObservedOwner False, Forwarded r2]"
        have scm: "successively retry_step (Supported True # ?mid)"
        proof -
          have "successively retry_step (((Supported True # ev1) @ [ObservedOwner False]) @ [Forwarded r2])"
            using plain_successively [of "(Supported True # ev1) @ [ObservedOwner False]"] pl
            by (subst successively_append_iff) (auto intro: plain_retry_step_last)
          then show ?thesis by simp
        qed
        have ndm: "\<forall>x. Dispatched x \<notin> set ?mid" "\<forall>x. Awaited x \<notin> set ?mid"
          using nd1 by auto
        have rht2: "read_held t \<longrightarrow> read_held ?t2"
          using rh' by (simp add: read_held_append)
        show ?thesis
        proof (cases "r2 \<noteq> - ETIMEDOUT \<and> r2 \<noteq> - ERESTART")
          case final: True
          with bd True p nonneg notowner rr
          have res: "res = Some r2" "t' = ?t2" by auto
          have "\<exists>ev'. Supported True # ?mid = ev' @ [Forwarded r2]"
            by (rule exI [of _ "Supported True # ev1 @ [ObservedOwner False]"]) simp
          then show ?thesis
            unfolding y res using t1 scm ndm rht2 final
            by (intro req_postI [where ev = ?mid and b = True]) simp_all
        next
          case retry: False
          with bd True p nonneg notowner rr
          have rec: "f env remote_request (ictx1\<lparr>world := w\<rparr>) ?t2 = Some (res, ictx', t')"
            by auto
          from body(1) [OF rec] obtain ev b where
            t': "t' = ?t2 @ Supported b # ev" and sc: "successively retry_step (Supported b # ev)"
            and nd: "\<forall>x. Dispatched x \<notin> set ev" and na: "\<forall>x. Awaited x \<notin> set ev"
            and rh2: "read_held ?t2 \<longrightarrow> read_held t'"
            and ex: "case res of
                None \<Rightarrow> (\<exists>ev'. Supported b # ev = ev' @ [Supported False]) \<or>
                         (\<exists>ev'. Supported b # ev = ev' @ [ObservedOwner True])
              | Some r \<Rightarrow> (\<exists>ev'. Supported b # ev = ev' @ [Forwarded r] \<and>
                                 r \<noteq> - ETIMEDOUT \<and> r \<noteq> - ERESTART) \<or>
                          (r = - EROFS \<and> (\<exists>ev' e. Supported b # ev = ev' @ [e] \<and> plain [e]))"
            unfolding req_post_def prod.case by blast
          let ?ev = "?mid @ Supported b # ev"
          have eq: "t' = t @ Supported True # ?ev" using t' t1 by simp
          have sc': "successively retry_step (Supported True # ?ev)"
          proof -
            have "successively retry_step ((Supported True # ?mid) @ Supported b # ev)"
              using scm sc retry by (subst successively_append_iff) auto
            then show ?thesis by simp
          qed
          have nd': "\<forall>x. Dispatched x \<notin> set ?ev" "\<forall>x. Awaited x \<notin> set ?ev"
            using nd na ndm by auto
          have rh3: "read_held t \<longrightarrow> read_held t'"
            using rh2 rht2 by simp
          have pre: "\<And>l. \<exists>ev'. Supported b # ev = ev' @ l \<Longrightarrow> \<exists>ev'. Supported True # ?ev = ev' @ l"
            using ends_prepend [of "Supported b # ev" _ "Supported True # ?mid"] by simp
          have ex': "case res of
                None \<Rightarrow> (\<exists>ev'. Supported True # ?ev = ev' @ [Supported False]) \<or>
                         (\<exists>ev'. Supported True # ?ev = ev' @ [ObservedOwner True])
              | Some r \<Rightarrow> (\<exists>ev'. Supported True # ?ev = ev' @ [Forwarded r] \<and>
                                 r \<noteq> - ETIMEDOUT \<and> r \<noteq> - ERESTART) \<or>
                          (r = - EROFS \<and> (\<exists>ev' e. Supported True # ?ev = ev' @ [e] \<and> plain [e]))"
          proof (cases res)
            case None
            with ex pre show ?thesis by (simp only: option.simps) blast
          next
            case (Some r)
            from ex Some consider
              "\<exists>ev'. Supported b # ev = ev' @ [Forwarded r]" "r \<noteq> - ETIMEDOUT" "r \<noteq> - ERESTART" |
              e where "r = - EROFS" "\<exists>ev'. Supported b # ev = ev' @ [e]" "plain [e]"
              by (simp only: option.simps) blast
            then show ?thesis
            proof cases
              case 1
              with pre show ?thesis by (simp only: Some option.simps) blast
            next
              case 2
              from pre [OF 2(2)] 2(1,3) show ?thesis by (simp only: Some option.simps) blast
            qed
          qed
          show ?thesis
            unfolding y using eq sc' nd' rh3 ex' by (intro req_postI)
        qed
      qed
    qed
  qed
qed

lemma inv_postI:
  assumes "t' = t @ OwnerRLock # E'" and "successively retry_step (OwnerRLock # E')"
    and "dispatch_guarded t \<longrightarrow> dispatch_guarded t'"
    and "exit_class r (OwnerRLock # E')"
  shows "inv_post t (r, ictx', t')"
  unfolding inv_post_def prod.case
  by (rule exI [of _ "OwnerRLock # E'"]) (use assms in blast)

lemma exit_class_prepend:
  assumes "exit_class r E" shows "exit_class r (X @ E)"
proof -
  have pre: "\<And>pre l. \<exists>pre'. X @ pre @ l = pre' @ l"
  proof -
    fix pre l :: "event list"
    have "X @ pre @ l = (X @ pre) @ l" by simp
    then show "\<exists>pre'. X @ pre @ l = pre' @ l" by (rule exI)
  qed
  from assms show ?thesis
    unfolding exit_class_def
    by (elim disjE exE conjE) (use pre in simp_all)
qed

lemmas invoke_async_request_induct =
  invoke_async_request.raw_induct [rotated 1, consumes 1, case_names body]

lemma invoke_async_request_trace:
  assumes "invoke_async_request env permit_snapshot local_request remote_request ictx t = Some y"
  shows "inv_post t y"
  using assms
proof (induct rule: invoke_async_request_induct)
  case (body f env permit_snapshot local_request remote_request ictx t y)
  obtain r ictx' t' where y: "y = (r, ictx', t')" by (cases y) auto
  note bd = body(2) [unfolded y Let_def]
  let ?ictx0 = "ictx\<lparr>completion := None\<rparr>"
  let ?t0 = "t @ [OwnerRLock]"
  show ?case
  proof (cases "read_only ?ictx0 \<or> (\<not> permit_snapshot \<and> snap_id ?ictx0 \<noteq> CEPH_NOSNAP)")
    case True
    with bd have "r = - EROFS" "t' = ?t0 @ [OwnerRUnlock]" by auto
    moreover have "exit_class (- EROFS) [OwnerRLock, OwnerRUnlock]"
      unfolding exit_class_def by (intro disjI2 conjI refl exI [of _ "[]"] exI [of _ OwnerRLock]) simp_all
    moreover have "dispatch_guarded t \<longrightarrow> dispatch_guarded (t @ [OwnerRLock, OwnerRUnlock])"
      by (auto intro: guarded_append_other)
    ultimately show ?thesis
      unfolding y by (intro inv_postI [where E' = "[OwnerRUnlock]"]) simp_all
  next
    case False
    with bd obtain res ictx1 t1 where
      rq: "request_lock env remote_request ?ictx0 ?t0 = Some (res, ictx1, t1)"
      by (auto split: option.splits)
    from request_lock_trace [OF rq] obtain ev b where
      t1: "t1 = ?t0 @ Supported b # ev" and sc: "successively retry_step (Supported b # ev)"
      and nd: "\<forall>x. Dispatched x \<notin> set ev" and na: "\<forall>x. Awaited x \<notin> set ev"
      and rh: "read_held ?t0 \<longrightarrow> read_held t1"
      and ex: "case res of
              None \<Rightarrow> (\<exists>ev'. Supported b # ev = ev' @ [Supported False]) \<or>
                       (\<exists>ev'. Supported b # ev = ev' @ [ObservedOwner True])
            | Some r \<Rightarrow> (\<exists>ev'. Supported b # ev = ev' @ [Forwarded r] \<and>
                               r \<noteq> - ETIMEDOUT \<and> r \<noteq> - ERESTART) \<or>
                        (r = - EROFS \<and> (\<exists>ev' e. Supported b # ev = ev' @ [e] \<and> plain [e]))"
      unfolding req_post_def prod.case by blast
    have rh1: "read_held t1" using rh by (simp add: read_held_append)
    let ?E = "OwnerRLock # Supported b # ev"
    have t1': "t1 = t @ ?E" using t1 by simp
    have scE: "successively retry_step ?E" using sc by simp
    have ndE: "\<forall>x. Dispatched x \<notin> set ?E" using nd by simp
    have g1: "dispatch_guarded t \<longrightarrow> dispatch_guarded t1"
      unfolding t1' using ndE by (auto intro: guarded_append_other)
    show ?thesis
    proof (cases res)
      case (Some r1)
      with bd False rq have res: "r = r1" "t' = t1 @ [OwnerRUnlock]" by auto
      from ex Some obtain ev' e where
        last: "Supported b # ev = ev' @ [e]"
        and e: "(e = Forwarded r1 \<and> r1 \<noteq> - ETIMEDOUT \<and> r1 \<noteq> - ERESTART) \<or> (r1 = - EROFS \<and> plain [e])"
        by (simp only: option.simps) blast
      have E: "?E = (OwnerRLock # ev') @ [e]" using last by simp
      have "retry_step e OwnerRUnlock" using e by (cases e) auto
      then have sc': "successively retry_step (?E @ [OwnerRUnlock])"
        using scE by (subst successively_append_iff) (simp add: E)
      have g': "dispatch_guarded t \<longrightarrow> dispatch_guarded t'"
        using g1 unfolding res by (auto intro: guarded_snoc_other)
      have cls: "exit_class r (?E @ [OwnerRUnlock])"
        using e unfolding E res exit_class_def by auto
      have "t' = t @ OwnerRLock # (Supported b # ev @ [OwnerRUnlock])" using res t1 by simp
      moreover have "successively retry_step (OwnerRLock # (Supported b # ev @ [OwnerRUnlock]))"
        using sc' by simp
      moreover have "exit_class r (OwnerRLock # (Supported b # ev @ [OwnerRUnlock]))"
        using cls by simp
      ultimately show ?thesis unfolding y using g' by (intro inv_postI)
    next
      case None
      from ex None obtain ev' e where
        last: "Supported b # ev = ev' @ [e]" and e: "e = ObservedOwner True \<or> e = Supported False"
        by (simp only: option.simps) blast
      have E: "?E = (OwnerRLock # ev') @ [e]" using last by simp
      have rhp: "read_held (t @ OwnerRLock # ev')"
        using rh1 e unfolding t1' E by (auto simp add: read_held_append)
      from bd False rq None obtain r0 ictx2 where
        lr: "local_request ictx1 = Some (r0, ictx2)" by (auto split: option.splits)
      have gd: "dispatch_guarded t \<longrightarrow> dispatch_guarded (t1 @ [Dispatched r0])"
      proof
        assume "dispatch_guarded t"
        with g1 have "dispatch_guarded ((t @ OwnerRLock # ev') @ [e])" unfolding t1' E by simp
        from guarded_snoc_dispatch [OF this rhp e, of r0]
        show "dispatch_guarded (t1 @ [Dispatched r0])" unfolding t1' E by simp
      qed
      have re: "\<And>x. retry_step e x" using e by auto
      have scD: "successively retry_step (?E @ [Dispatched r0, OwnerRUnlock])"
        using scE re by (subst successively_append_iff) (simp add: E)
      show ?thesis
      proof (cases "r0 < 0")
        case True
        with bd False rq None lr have res: "r = r0" "t' = t1 @ [Dispatched r0, OwnerRUnlock]" by auto
        have g': "dispatch_guarded t \<longrightarrow> dispatch_guarded t'"
          using gd guarded_snoc_other [of "t1 @ [Dispatched r0]" OwnerRUnlock] unfolding res by simp
        have "t' = t @ OwnerRLock # (Supported b # ev @ [Dispatched r0, OwnerRUnlock])"
          using res t1 by simp
        moreover have "successively retry_step (OwnerRLock # (Supported b # ev @ [Dispatched r0, OwnerRUnlock]))"
          using scD by simp
        moreover have "exit_class r (OwnerRLock # (Supported b # ev @ [Dispatched r0, OwnerRUnlock]))"
          unfolding exit_class_def using True res
          by (intro disjI2 disjI1 exI [of _ ?E]) simp
        ultimately show ?thesis unfolding y using g' by (intro inv_postI)
      next
        case nonneg: False
        obtain r' ictx3 where cw: "ctx_wait env ictx2 = (r', ictx3)" by (cases "ctx_wait env ictx2") auto
        let ?A = "[Dispatched r0, OwnerRUnlock, Awaited r']"
        let ?t3 = "t1 @ ?A"
        have g3: "dispatch_guarded t \<longrightarrow> dispatch_guarded ?t3"
        proof
          assume "dispatch_guarded t"
          with gd have "dispatch_guarded (t1 @ [Dispatched r0])" by simp
          then have "dispatch_guarded ((t1 @ [Dispatched r0]) @ [OwnerRUnlock, Awaited r'])"
            by (rule guarded_append_other) simp
          then show "dispatch_guarded ?t3" by simp
        qed
        have scA: "successively retry_step (?E @ ?A)"
          using scE re by (subst successively_append_iff) (simp add: E)
        show ?thesis
        proof (cases "r' = - ERESTART")
          case False
          with bd \<open>\<not> (read_only ?ictx0 \<or> (\<not> permit_snapshot \<and> snap_id ?ictx0 \<noteq> CEPH_NOSNAP))\<close>
            rq None lr nonneg cw
          have res: "r = r'" "t' = ?t3" by auto
          have "t' = t @ OwnerRLock # (Supported b # ev @ ?A)" using res t1 by simp
          moreover have "successively retry_step (OwnerRLock # (Supported b # ev @ ?A))"
            using scA by simp
          moreover have "exit_class r (OwnerRLock # (Supported b # ev @ ?A))"
            unfolding exit_class_def using False res
            by (intro disjI2 disjI1 exI [of _ "?E @ [Dispatched r0, OwnerRUnlock]"]) simp
          moreover have "dispatch_guarded t \<longrightarrow> dispatch_guarded t'" using g3 res by simp
          ultimately show ?thesis unfolding y by (intro inv_postI)
        next
          case True
          with bd \<open>\<not> (read_only ?ictx0 \<or> (\<not> permit_snapshot \<and> snap_id ?ictx0 \<noteq> CEPH_NOSNAP))\<close>
            rq None lr nonneg cw
          have rec: "f env permit_snapshot local_request remote_request ictx3 ?t3 = Some (r, ictx', t')"
            by (auto simp add: y)
          from body(1) [OF rec] obtain ev2 where
            t': "t' = ?t3 @ OwnerRLock # ev2" and sc2: "successively retry_step (OwnerRLock # ev2)"
            and g2: "dispatch_guarded ?t3 \<longrightarrow> dispatch_guarded t'"
            and cl2: "exit_class r (OwnerRLock # ev2)"
            unfolding inv_post_def prod.case by blast
          let ?W = "Supported b # ev @ ?A @ OwnerRLock # ev2"
          have eq: "t' = t @ OwnerRLock # ?W" using t' t1 by simp
          have "successively retry_step ((?E @ ?A) @ OwnerRLock # ev2)"
            using scA sc2 True by (subst successively_append_iff) simp
          then have scW: "successively retry_step (OwnerRLock # ?W)" by simp
          have gW: "dispatch_guarded t \<longrightarrow> dispatch_guarded t'" using g3 g2 by blast
          have clW: "exit_class r (OwnerRLock # ?W)"
            using exit_class_prepend [OF cl2, of "?E @ ?A"] by simp
          show ?thesis unfolding y using eq scW gW clW by (intro inv_postI)
        qed
      qed
    qed
  qed
qed





text \<open>
  Claim C1. In a run of the coordinator in which \<^verbatim>\<open>is_lock_supported()\<close> never
  answered false, every dispatch of the local handler comes directly after an answer
  \<open>true\<close> of \<^verbatim>\<open>is_lock_owner()\<close>; the owner lock was held in read mode when the
  answer was given and is still held at the dispatch, and no event lies between the two,
  so the lock is not released in between.
\<close>

theorem handler_dispatched_under_owner_lock:
  assumes "invoke_async_request env permit_snapshot local_request remote_request ictx [] =
             Some (r, ictx', t)"
    and "Supported False \<notin> set t"
    and "t = pre @ Dispatched r0 # post"
  shows "\<exists>pre'. pre = pre' @ [ObservedOwner True] \<and> read_held pre' \<and> read_held pre"
proof -
  have "dispatch_guarded []" by (simp add: dispatch_guarded_def)
  with invoke_async_request_trace [OF assms(1)] have "dispatch_guarded t"
    by (auto simp add: inv_post_def)
  with assms(3) obtain pre' e where
    pre: "pre = pre' @ [e]" and held: "read_held pre'"
    and e: "e = ObservedOwner True \<or> e = Supported False"
    unfolding dispatch_guarded_def by blast
  from assms(2,3) pre have "e \<noteq> Supported False" by auto
  with e have "e = ObservedOwner True" by simp
  with pre held show ?thesis by (simp add: read_held_append)
qed

lemma owner_creates_snapshot:
  "\<exists>ictx'. invoke_async_request owner True (snap_create_helper owner True ''s2'')
             (notify_snap_create owner ''s2'') fresh [] =
     Some (0, ictx', [OwnerRLock, Supported True, Supported True, ObservedOwner True,
                      ObservedOwner True, Dispatched 0, OwnerRUnlock, Awaited 0])"
  by (simp add: invoke_async_request.simps request_lock.simps prepare_image_update_def
      snap_create_helper_def owner_or_unsupported_def ictx_check_def flush'_def
      add_snap_retry.simps add_snap_def ctx_wait_def owner_def quiet_def fresh_def CEPH_NOSNAP_def)

theorem handler_dispatched_under_owner_lock_witness:
  "\<exists>pre'. [OwnerRLock, Supported True, Supported True, ObservedOwner True, ObservedOwner True] =
            pre' @ [ObservedOwner True] \<and> read_held pre' \<and>
          read_held [OwnerRLock, Supported True, Supported True, ObservedOwner True, ObservedOwner True]"
proof -
  from owner_creates_snapshot obtain ictx' where
    run: "invoke_async_request owner True (snap_create_helper owner True ''s2'')
        (notify_snap_create owner ''s2'') fresh [] =
      Some (0, ictx', [OwnerRLock, Supported True, Supported True, ObservedOwner True,
                       ObservedOwner True] @ Dispatched 0 # [OwnerRUnlock, Awaited 0])"
    by auto
  from handler_dispatched_under_owner_lock [OF run _ refl] show ?thesis by simp
qed



text \<open>
  A forward whose error is dropped and retried, and a dispatch whose negative value is
  followed by waiting, are not runs of the coordinator.
\<close>

lemma dropped_forward_error_is_no_run:
  "\<not> settles 0 [OwnerRLock, Supported True, ObservedOwner False, Forwarded (- EIO), OwnerRUnlock,
                OwnerRLock, Supported True, ObservedOwner False, Forwarded 0, OwnerRUnlock]"
  by simp

lemma awaited_after_failed_dispatch_is_no_run:
  "\<not> settles 0 [OwnerRLock, Supported False, Dispatched (- EIO), OwnerRUnlock, Awaited 0]"
  by simp





subsection \<open>Create and remove when the snapshot already exists\<close>

text \<open>
  Claim C9. When the run of the coordinator for a snapshot create, or for a snapshot
  remove on a device with the fast-diff feature, returns \<open>-EEXIST\<close>, the public
  operation returns 0: it notifies the change and reports success.
\<close>

theorem snapshot_ops_swallow_EEXIST:
  "(\<not> read_only ictx \<and> ictx_check env False ictx = Some (r0, ictx1) \<and> 0 \<le> r0 \<and>
    get_snap_id ictx1 nm = CEPH_NOSNAP \<and>
    invoke_async_request env True (snap_create_helper env True nm) (notify_snap_create env nm)
      ictx1 [] = Some (- EEXIST, ictx2, t)
    \<longrightarrow> snap_create env nm ictx = Some (0, notify_change env ictx2)) \<and>
   (\<not> read_only ictx \<and> ictx_check env False ictx = Some (r0, ictx1) \<and> 0 \<le> r0 \<and>
    get_snap_id ictx1 nm \<noteq> CEPH_NOSNAP \<and> features ictx1 AND RBD_FEATURE_FAST_DIFF \<noteq> 0 \<and>
    invoke_async_request env True (snap_remove_helper env True nm) (notify_snap_remove env nm)
      ictx1 [] = Some (- EEXIST, ictx2, t)
    \<longrightarrow> snap_remove env nm ictx = Some (0, notify_change env ictx2))"
  by (auto simp add: snap_create_def snap_remove_def Let_def)

lemma peer_answers_EEXIST:
  "\<exists>ictx2 t. invoke_async_request (peer_owns (- EEXIST)) True
       (snap_create_helper (peer_owns (- EEXIST)) True ''s2'')
       (notify_snap_create (peer_owns (- EEXIST)) ''s2'') fresh [] = Some (- EEXIST, ictx2, t)"
  by (simp add: invoke_async_request.simps request_lock.simps prepare_image_update_def
      peer_owns_def quiet_def fresh_def CEPH_NOSNAP_def)

theorem snapshot_ops_swallow_EEXIST_witness:
  "map_option fst (snap_create (peer_owns (- EEXIST)) ''s2'' fresh) = Some 0"
proof -
  from peer_answers_EEXIST obtain ictx2 t where
    run: "invoke_async_request (peer_owns (- EEXIST)) True
       (snap_create_helper (peer_owns (- EEXIST)) True ''s2'')
       (notify_snap_create (peer_owns (- EEXIST)) ''s2'') fresh [] = Some (- EEXIST, ictx2, t)"
    by blast
  have pre: "\<not> read_only fresh" "ictx_check (peer_owns (- EEXIST)) False fresh = Some (0, fresh)"
    "get_snap_id fresh ''s2'' = CEPH_NOSNAP"
    by (simp_all add: fresh_def ictx_check_def get_snap_id_def)
  from snapshot_ops_swallow_EEXIST [of fresh "peer_owns (- EEXIST)" 0 fresh "''s2''" ictx2 t]
    run pre
  show ?thesis by simp
qed


subsection \<open>Unprotect\<close>







lemma unsearched_base_pool_is_no_scan: "\<not> scan_chain [PoolGetBaseTier 2 2 0]"
  by simp






subsection \<open>Remove of a snapshot that the header codec rejects\<close>








subsection \<open>Failure of the parent resolver\<close>

lemma open_failed_at:
  assumes "list_all (\<lambda>x. 0 \<le> result_of x) pre" and "\<not> list_ex is_close pre" and "\<not> is_close c"
    and "result_of c = r"
    and "if list_ex is_open pre then \<exists>x. post = [CloseImage x] else post = []"
  shows "open_failed r (pre @ c # post)"
  unfolding open_failed_def using assms by blast

lemma handle_closedI1:
  assumes "parent_open_image env p1 w2 = (r3, p2, w3)" and "0 \<le> r3"
    and "get_snap_name p2 i = None"
    and "parent_close_image env p2 w3 = (x, w')"
  shows "handle_closed env (- ENOENT) (pre @ [GetSnapName i (- ENOENT), CloseImage x]) w'"
proof -
  have "\<exists>pre' i'. - ENOENT = - ENOENT \<and> get_snap_name p2 i' = None \<and>
      pre @ [GetSnapName i (- ENOENT), CloseImage x] =
        pre' @ [GetSnapName i' (- ENOENT), CloseImage (fst (parent_close_image env p2 w3))] \<and>
      w' = snd (parent_close_image env p2 w3)"
    by (rule exI [of _ pre], rule exI [of _ i]) (simp add: assms)
  with assms(1,2) show ?thesis
    unfolding handle_closed_def
    by (intro exI [of _ p1] exI [of _ w2] exI [of _ r3] exI [of _ p2] exI [of _ w3] conjI disjI1)
qed

lemma handle_closedI2:
  assumes "parent_open_image env p1 w2 = (r3, p2, w3)" and "0 \<le> r3"
    and "parent_refresh_parent env p3 w3 = (r, p4, w4)"
    and "parent_close_image env p4 w4 = (x, w')"
  shows "handle_closed env r (pre @ [RefreshParent r, CloseImage x]) w'"
proof -
  have "\<exists>pre' p3 p4 w4. parent_refresh_parent env p3 w3 = (r, p4, w4) \<and>
      pre @ [RefreshParent r, CloseImage x] =
        pre' @ [RefreshParent r, CloseImage (fst (parent_close_image env p4 w4))] \<and>
      w' = snd (parent_close_image env p4 w4)"
    by (rule exI [of _ pre], rule exI [of _ p3], rule exI [of _ p4], rule exI [of _ w4])
      (simp add: assms)
  with assms(1,2) show ?thesis
    unfolding handle_closed_def
    by (intro exI [of _ p1] exI [of _ w2] exI [of _ r3] exI [of _ p2] exI [of _ w3] conjI disjI2)
qed

text \<open>
  Claim C7. When \<^verbatim>\<open>open_parent\<close> returns an error, the parent field of the device is
  unset, every handle of the parent that was constructed has been closed and deleted
  again, and the error is the one of the step that failed: the steps before it
  succeeded, and after it nothing is done but closing the handle, which happens exactly
  when the handle had been opened. The handle is closed by \<^verbatim>\<open>close_image\<close>, called
  on the handle as the failed step left it and in the world that step left; the
  world after \<^verbatim>\<open>open_parent\<close> is the one \<^verbatim>\<open>close_image\<close> leaves. The function is
  entered with the parent field unset, as its only caller \<^verbatim>\<open>refresh_parent\<close> ensures.
\<close>

theorem open_parent_failure_tears_down:
  fixes env :: "'w env" and ictx :: "'w image_ctx"
  assumes "open_parent env ictx = Some (r, ictx')" and "r < 0" and "parent ictx = None"
  shows "parent ictx' = None \<and> live_parents ictx' = live_parents ictx \<and>
         (\<exists>cs. calls ictx' = calls ictx @ cs \<and> open_failed r cs \<and>
            (list_ex (\<lambda>c. is_open c \<and> 0 \<le> result_of c) cs \<longrightarrow>
               handle_closed env r cs (world ictx')))"
proof -
  let ?pid = "get_parent_pool_id ictx (snap_id ictx)"
  let ?pimg = "get_parent_image_id ictx (snap_id ictx)"
  let ?psnap = "get_parent_snap_id ictx (snap_id ictx)"
  note bd = assms(1) [unfolded open_parent_def Let_def]
  have ns: "?psnap \<noteq> CEPH_NOSNAP" using bd by (auto split: if_splits)
  show ?thesis
  proof (cases "sint ?pid < 0")
    case True
    with bd ns have "r = - ENOENT" "ictx' = ictx" by auto
    with assms(3) show ?thesis by (simp add: open_failed_def)
  next
    case pool: False
    obtain r1 pool_name w1 where l: "pool_reverse_lookup env ?pid (world ictx) = (r1, pool_name, w1)"
      by (cases "pool_reverse_lookup env ?pid (world ictx)") auto
    let ?c1 = "PoolReverseLookup ?pid r1"
    note bd1 = bd [unfolded l prod.case]
    show ?thesis
    proof (cases "r1 < 0")
      case True
      with bd1 ns pool have "r = r1" "ictx' = ictx\<lparr>calls := calls ictx @ [?c1], world := w1\<rparr>"
        by auto
      with assms(3) open_failed_at [of "[]" ?c1 r1 "[]"] show ?thesis by simp
    next
      case ok1: False
      obtain r2 p_ioctx w2 where c: "ioctx_create env pool_name w1 = (r2, p_ioctx, w2)"
        by (cases "ioctx_create env pool_name w1") auto
      let ?c2 = "IoctxCreate pool_name r2"
      note bd2 = bd1 [unfolded c prod.case]
      show ?thesis
      proof (cases "r2 < 0")
        case True
        with bd2 ns pool ok1 have "r = r2"
          "ictx' = ictx\<lparr>calls := calls ictx @ [?c1, ?c2], world := w2\<rparr>"
          by auto
        with assms(3) open_failed_at [of "[?c1]" ?c2 r2 "[]"] ok1 show ?thesis by simp
      next
        case ok2: False
        let ?p0 = "new_ImageCtx ?pimg p_ioctx"
        let ?p1 = "if balance_parent_reads ictx then set_read_flag ''BALANCE_READS'' ?p0
                  else if localize_parent_reads ictx then set_read_flag ''LOCALIZE_READS'' ?p0
                  else ?p0"
        obtain r3 p2 w3 where o: "parent_open_image env ?p1 w2 = (r3, p2, w3)"
          by (cases "parent_open_image env ?p1 w2") auto
        let ?c3 = "OpenImage ?pimg r3"
        note bd3 = bd2 [unfolded o prod.case]
        show ?thesis
        proof (cases "r3 < 0")
          case True
          with bd3 ns pool ok1 ok2 have "r = r3" "parent ictx' = None"
            "live_parents ictx' = live_parents ictx"
            "calls ictx' = calls ictx @ [?c1, ?c2, ?c3]"
            by auto
          with open_failed_at [of "[?c1, ?c2]" ?c3 r3 "[]"] ok1 ok2 True show ?thesis by simp
        next
          case ok3: False
          then have ok3': "0 \<le> r3" by simp
          show ?thesis
          proof (cases "get_snap_name p2 ?psnap")
            case None
            let ?c4 = "GetSnapName ?psnap (- ENOENT)"
            obtain x w' where cl: "parent_close_image env p2 w3 = (x, w')"
              by (cases "parent_close_image env p2 w3") auto
            from bd3 ns pool ok1 ok2 ok3 None cl have res: "r = - ENOENT" "parent ictx' = None"
              "live_parents ictx' = live_parents ictx"
              "calls ictx' = calls ictx @ [?c1, ?c2, ?c3, ?c4, CloseImage x]"
              "world ictx' = w'"
              by (auto simp add: close_parent_def)
            from handle_closedI1 [OF o ok3' None cl, of "[?c1, ?c2, ?c3]"]
            have "handle_closed env r [?c1, ?c2, ?c3, ?c4, CloseImage x] (world ictx')"
              using res by simp
            with res open_failed_at [of "[?c1, ?c2, ?c3]" ?c4 "- ENOENT" "[CloseImage x]"] ok1 ok2 ok3
            show ?thesis by simp
          next
            case (Some parent_snap_name)
            let ?p3 = "snd (ictx_snap_set parent_snap_name (p2\<lparr>snap_name := parent_snap_name\<rparr>))"
            obtain r5 p4 w4 where rf: "parent_refresh_parent env ?p3 w3 = (r5, p4, w4)"
              by (cases "parent_refresh_parent env ?p3 w3") auto
            let ?c4 = "GetSnapName ?psnap 0"
            let ?c5 = "RefreshParent r5"
            obtain x w' where cl: "parent_close_image env p4 w4 = (x, w')"
              by (cases "parent_close_image env p4 w4") auto
            from bd3 ns pool ok1 ok2 ok3 Some rf assms(2) cl have res: "r = r5" "parent ictx' = None"
              "live_parents ictx' = live_parents ictx"
              "calls ictx' = calls ictx @ [?c1, ?c2, ?c3, ?c4, ?c5, CloseImage x]"
              "world ictx' = w'"
              by (auto simp add: close_parent_def split: if_splits)
            from handle_closedI2 [OF o ok3' rf cl, of "[?c1, ?c2, ?c3, ?c4]"]
            have "handle_closed env r [?c1, ?c2, ?c3, ?c4, ?c5, CloseImage x] (world ictx')"
              using res by simp
            with res open_failed_at [of "[?c1, ?c2, ?c3, ?c4]" ?c5 r5 "[CloseImage x]"] ok1 ok2 ok3
            show ?thesis by simp
          qed
        qed
      qed
    qed
  qed
qed

theorem open_parent_failure_tears_down_witness:
  "\<exists>ictx'. open_parent close_counts clone = Some (- ENOENT, ictx') \<and> parent ictx' = None \<and>
      live_parents ictx' = 0 \<and> world ictx' = 10 \<and>
      calls ictx' = [PoolReverseLookup 2 0, IoctxCreate ''rbd'' 0, OpenImage ''1002ae8944a'' 0,
                     GetSnapName 7 (- ENOENT), CloseImage (- EIO)] \<and>
      open_failed (- ENOENT) (calls ictx') \<and>
      handle_closed close_counts (- ENOENT) (calls ictx') (world ictx')"
proof -
  have "\<exists>ictx'. open_parent close_counts clone = Some (- ENOENT, ictx') \<and> world ictx' = 10 \<and>
      calls ictx' = [PoolReverseLookup 2 0, IoctxCreate ''rbd'' 0, OpenImage ''1002ae8944a'' 0,
                     GetSnapName 7 (- ENOENT), CloseImage (- EIO)]"
    by (simp add: open_parent_def clone_def fresh_def close_counts_def quiet_def
        get_parent_pool_id_def
        get_parent_image_id_def get_parent_snap_id_def get_parent_info_def CEPH_NOSNAP_def
        new_ImageCtx_def get_snap_name_def get_snap_info_def close_parent_def Let_def)
  then obtain ictx' where run: "open_parent close_counts clone = Some (- ENOENT, ictx')"
    and w: "world ictx' = 10"
    and cs: "calls ictx' = [PoolReverseLookup 2 0, IoctxCreate ''rbd'' 0, OpenImage ''1002ae8944a'' 0,
                     GetSnapName 7 (- ENOENT), CloseImage (- EIO)]" by blast
  have c: "parent clone = None" "live_parents clone = 0" "calls clone = []"
    by (simp_all add: clone_def fresh_def)
  from open_parent_failure_tears_down [OF run _ c(1)] run cs c(2,3) w show ?thesis by simp
qed

end
